theory Spec2Isabelle
  imports Complex_Main "HOL-Library.Signed_Division"
begin

section \<open>JavaScript values, strings and errors\<close>

text \<open>
  The repository holds two copies of one command-line script: the CommonJS file
  \<^verbatim>\<open>rejoin_validator_set.js\<close> and an ES-module rewrite (\<^verbatim>\<open>part_000\<close>). Both define
  \<^verbatim>\<open>parseArgsData\<close>, \<^verbatim>\<open>extractDataFromArgs\<close>, \<^verbatim>\<open>callAddValidator\<close> and \<^verbatim>\<open>main\<close>. The
  definitions taken from the first file carry the prefix \<open>rvs_\<close>, those taken from the
  second the prefix \<open>p0_\<close>.

  A JavaScript value is one of the values \<^verbatim>\<open>JSON.parse\<close> can build, or \<^verbatim>\<open>undefined\<close>.
  An object is the list of its own properties. Strings are lists of code units below 256.
\<close>

datatype jsval =
    JUndefined
  | JNull
  | JBool bool
  | JNum rat
  | JStr string
  | JArr "jsval list"
  | JObj "(string \<times> jsval) list"

text \<open>
  Every \<^verbatim>\<open>throw\<close> of the two files is a constructor; the text a message interpolates is
  left out except where a claim reads it. \<open>JsTypeError\<close> is the engine's own TypeError
  (a property read on \<^verbatim>\<open>undefined\<close>, a call of something that is no function).
  \<open>LibraryError\<close> stands for whatever \<^verbatim>\<open>JSON.parse\<close>, the ethers library or the RPC
  node throw.
\<close>

datatype error =
    JsTypeError
  | LibraryError string
  | InvalidInputFormat
  | NoInputData
  | InvalidInputFormatReceived string
  | TooFewArguments
  | InvalidAttester jsval
  | MerkleProofNotArray jsval
  | ZKPassportNotObject
  | MissingBLS
  | InvalidPrivateKey error

definition truthy :: "jsval \<Rightarrow> bool" where
  "truthy v =
     (case v of
        JUndefined \<Rightarrow> False
      | JNull \<Rightarrow> False
      | JBool b \<Rightarrow> b
      | JNum n \<Rightarrow> n \<noteq> 0
      | JStr s \<Rightarrow> s \<noteq> []
      | JArr _ \<Rightarrow> True
      | JObj _ \<Rightarrow> True)"

definition typeof_string :: "jsval \<Rightarrow> bool" where
  "typeof_string v = (case v of JStr _ \<Rightarrow> True | _ \<Rightarrow> False)"

definition typeof_object :: "jsval \<Rightarrow> bool" where
  "typeof_object v = (case v of JNull \<Rightarrow> True | JArr _ \<Rightarrow> True | JObj _ \<Rightarrow> True | _ \<Rightarrow> False)"

definition isArray :: "jsval \<Rightarrow> bool" where
  "isArray v = (case v of JArr _ \<Rightarrow> True | _ \<Rightarrow> False)"

fun decimal :: "nat \<Rightarrow> string" where
  "decimal n =
     (if n < 10 then [char_of (48 + n)]
      else decimal (n div 10) @ [char_of (48 + n mod 10)])"

declare decimal.simps [simp del]

text \<open>
  \<^verbatim>\<open>v[i]\<close>: a read on \<^verbatim>\<open>undefined\<close> or \<^verbatim>\<open>null\<close> throws; past the end of an array or a
  string it gives \<^verbatim>\<open>undefined\<close>; on an object it looks up the property named by the
  decimal numeral.
\<close>

definition js_index :: "jsval \<Rightarrow> nat \<Rightarrow> error + jsval" where
  "js_index v i =
     (case v of
        JUndefined \<Rightarrow> Inl JsTypeError
      | JNull \<Rightarrow> Inl JsTypeError
      | JArr xs \<Rightarrow> Inr (if i < length xs then xs ! i else JUndefined)
      | JStr s \<Rightarrow> Inr (if i < length s then JStr [s ! i] else JUndefined)
      | JObj kvs \<Rightarrow> Inr (case map_of kvs (decimal i) of Some x \<Rightarrow> x | None \<Rightarrow> JUndefined)
      | _ \<Rightarrow> Inr JUndefined)"

text \<open>White space as \<^verbatim>\<open>String.prototype.trim\<close> and the regular expression class \<^verbatim>\<open>\s\<close>
  see it, among code units below 256.\<close>

definition is_space :: "char \<Rightarrow> bool" where
  "is_space c \<longleftrightarrow> c \<in> set [CHR 0x09, CHR 0x0A, CHR 0x0B, CHR 0x0C, CHR 0x0D, CHR 0x20, CHR 0xA0]"

definition trim :: "string \<Rightarrow> string" where
  "trim s = rev (dropWhile is_space (rev (dropWhile is_space s)))"

definition startsWith :: "string \<Rightarrow> string \<Rightarrow> bool" where
  "startsWith s p \<longleftrightarrow> take (length p) s = p"

definition endsWith :: "string \<Rightarrow> string \<Rightarrow> bool" where
  "endsWith s p \<longleftrightarrow> length p \<le> length s \<and> drop (length s - length p) s = p"

text \<open>\<^verbatim>\<open>s.substring(a)\<close> and \<^verbatim>\<open>s.substring(a, b)\<close> for non-negative indices: both are
  clamped to the length and swapped when \<open>a > b\<close>.\<close>

definition substring_from :: "string \<Rightarrow> nat \<Rightarrow> string" where
  "substring_from s a = drop a s"

definition substring :: "string \<Rightarrow> nat \<Rightarrow> nat \<Rightarrow> string" where
  "substring s a b =
     (let a' = min a (length s); b' = min b (length s);
          lo = min a' b'; hi = max a' b'
      in take (hi - lo) (drop lo s))"

text \<open>\<^verbatim>\<open>s.slice(a, b)\<close>: a negative index counts from the end, nothing is swapped.\<close>

definition slice :: "string \<Rightarrow> int \<Rightarrow> int \<Rightarrow> string" where
  "slice s a b =
     (let n = int (length s);
          lo = (if a < 0 then max (n + a) 0 else min a n);
          hi = (if b < 0 then max (n + b) 0 else min b n)
      in take (nat (hi - lo)) (drop (nat lo) s))"

definition toLowerCase :: "string \<Rightarrow> string" where
  "toLowerCase s =
     map (\<lambda>c. let n = (of_char c :: nat)
              in if (65 \<le> n \<and> n \<le> 90) \<or> (192 \<le> n \<and> n \<le> 222 \<and> n \<noteq> 215)
                 then char_of (n + 32) else c) s"

section \<open>What the script does not define itself\<close>

text \<open>
  \<^verbatim>\<open>JSON.parse\<close>, \<^verbatim>\<open>ethers.isAddress\<close>, the wallet constructor (which yields the wallet's
  address), the RPC gas estimate, the contract call (which yields the transaction hash)
  and the wait for the receipt are not code of the repository: they are fields of the
  runtime the script runs in. Gas amounts are unbounded integers. Which major version of
  the ethers library is installed matters to the first file only, and is a separate
  argument of its functions (see \<open>rvs_callAddValidator\<close>).
\<close>

record receipt =
  transactionHash :: string
  blockNumber :: nat
  gasUsed :: int

record runtime =
  JSON_parse :: "string \<Rightarrow> error + jsval"
  isAddress :: "string \<Rightarrow> bool"
  Wallet :: "string \<Rightarrow> error + string"
  estimateGas :: "jsval list \<Rightarrow> error + int"
  addValidator :: "jsval list \<Rightarrow> int \<Rightarrow> error + string"
  wait :: "string \<Rightarrow> error + receipt"

section \<open>parseArgsData\<close>

subsection \<open>rejoin\_validator\_set.js\<close>

text \<open>\<^verbatim>\<open>argsInput.replace(/^args:\s*/, '')\<close>.\<close>

definition rvs_removePrefix :: "string \<Rightarrow> string" where
  "rvs_removePrefix s =
     (if startsWith s ''args:'' then dropWhile is_space (drop 5 s) else s)"

record rvs_tok =
  parts :: "string list"
  current :: string
  depth :: int
  inString :: bool
  stringChar :: string
  braceDepth :: int

definition rvs_tok_init :: rvs_tok where
  "rvs_tok_init =
     \<lparr>parts = [], current = [], depth = 0, inString = False, stringChar = [], braceDepth = 0\<rparr>"

text \<open>One pass of the \<^verbatim>\<open>for\<close> loop's body, the branches in the order of the source.\<close>

definition rvs_tok_step :: "rvs_tok \<Rightarrow> char \<Rightarrow> rvs_tok" where
  "rvs_tok_step st c =
     (if \<not> inString st \<and> (c = CHR 0x22 \<or> c = CHR 0x27) then
        st\<lparr>inString := True, stringChar := [c], current := current st @ [c]\<rparr>
      else if inString st \<and> [c] = stringChar st then
        st\<lparr>inString := False, stringChar := [], current := current st @ [c]\<rparr>
      else if \<not> inString st \<and> c = CHR ''{'' then
        st\<lparr>braceDepth := braceDepth st + 1, current := current st @ [c]\<rparr>
      else if \<not> inString st \<and> c = CHR ''}'' then
        st\<lparr>braceDepth := braceDepth st - 1, current := current st @ [c]\<rparr>
      else if \<not> inString st \<and> c = CHR ''('' then
        st\<lparr>depth := depth st + 1, current := current st @ [c]\<rparr>
      else if \<not> inString st \<and> c = CHR '')'' then
        st\<lparr>depth := depth st - 1, current := current st @ [c]\<rparr>
      else if \<not> inString st \<and> c = CHR '','' \<and> depth st = 0 \<and> braceDepth st = 0 then
        st\<lparr>parts := parts st @ [trim (current st)], current := []\<rparr>
      else
        st\<lparr>current := current st @ [c]\<rparr>)"

definition rvs_split :: "string \<Rightarrow> string list" where
  "rvs_split s =
     (let st = foldl rvs_tok_step rvs_tok_init s
      in if trim (current st) \<noteq> [] then parts st @ [trim (current st)] else parts st)"

text \<open>The \<^verbatim>\<open>parts.map\<close> callback: a part in braces or in brackets is JSON-parsed and
  kept as text when that fails; the number test returns the text either way.\<close>

definition rvs_parsePart :: "runtime \<Rightarrow> string \<Rightarrow> jsval" where
  "rvs_parsePart rt p0 =
     (let part = trim p0 in
      if startsWith part ''{'' \<and> endsWith part ''}'' then
        (case JSON_parse rt part of Inr v \<Rightarrow> v | Inl _ \<Rightarrow> JStr part)
      else if startsWith part ''['' \<and> endsWith part '']'' then
        (case JSON_parse rt part of Inr v \<Rightarrow> v | Inl _ \<Rightarrow> JStr part)
      else JStr part)"

definition rvs_cleanInput :: "string \<Rightarrow> string" where
  "rvs_cleanInput argsInput = trim (rvs_removePrefix argsInput)"

definition rvs_parseArgsData :: "runtime \<Rightarrow> string \<Rightarrow> error + jsval" where
  "rvs_parseArgsData rt argsInput =
     (let cleanInput = rvs_cleanInput argsInput in
      if startsWith cleanInput ''['' \<and> endsWith cleanInput '']'' then
        JSON_parse rt cleanInput
      else if startsWith cleanInput ''('' \<and> endsWith cleanInput '')'' then
        Inr (JArr (map (rvs_parsePart rt) (rvs_split (slice cleanInput 1 (- 1)))))
      else Inl InvalidInputFormat)"

subsection \<open>part\_000\<close>

definition p0_cleanInput :: "string \<Rightarrow> string" where
  "p0_cleanInput argsInput =
     (let cleanInput = trim argsInput in
      if startsWith cleanInput ''args:'' then trim (substring_from cleanInput 4)
      else if startsWith cleanInput ''args :'' then trim (substring_from cleanInput 5)
      else cleanInput)"

record p0_tok =
  parts :: "string list"
  currentPart :: string
  depth :: int
  braceDepth :: int
  bracketDepth :: int
  inString :: bool
  stringChar :: string

definition p0_tok_init :: p0_tok where
  "p0_tok_init =
     \<lparr>parts = [], currentPart = [], depth = 0, braceDepth = 0, bracketDepth = 0,
      inString = False, stringChar = []\<rparr>"

text \<open>The loop body; \<open>prev\<close> is \<^verbatim>\<open>cleanInput[i - 1]\<close>, absent at \<open>i = 0\<close>.\<close>

definition p0_tok_step :: "char option \<Rightarrow> p0_tok \<Rightarrow> char \<Rightarrow> p0_tok" where
  "p0_tok_step prev st c =
     (if inString st then
        (let st' = st\<lparr>currentPart := currentPart st @ [c]\<rparr> in
         if [c] = stringChar st then
           (if prev = Some (CHR 0x5C) then st'
            else st'\<lparr>inString := False, stringChar := []\<rparr>)
         else st')
      else if c = CHR 0x22 \<or> c = CHR 0x27 then
        st\<lparr>inString := True, stringChar := [c], currentPart := currentPart st @ [c]\<rparr>
      else if c = CHR ''('' then
        st\<lparr>depth := depth st + 1, currentPart := currentPart st @ [c]\<rparr>
      else if c = CHR '')'' then
        st\<lparr>depth := depth st - 1, currentPart := currentPart st @ [c]\<rparr>
      else if c = CHR ''{'' then
        st\<lparr>braceDepth := braceDepth st + 1, currentPart := currentPart st @ [c]\<rparr>
      else if c = CHR ''}'' then
        st\<lparr>braceDepth := braceDepth st - 1, currentPart := currentPart st @ [c]\<rparr>
      else if c = CHR ''['' then
        st\<lparr>bracketDepth := bracketDepth st + 1, currentPart := currentPart st @ [c]\<rparr>
      else if c = CHR '']'' then
        st\<lparr>bracketDepth := bracketDepth st - 1, currentPart := currentPart st @ [c]\<rparr>
      else if c = CHR '','' \<and> depth st = 0 \<and> braceDepth st = 0 \<and> bracketDepth st = 0 then
        st\<lparr>parts := parts st @ [trim (currentPart st)], currentPart := []\<rparr>
      else
        st\<lparr>currentPart := currentPart st @ [c]\<rparr>)"

fun p0_tok_loop :: "char option \<Rightarrow> p0_tok \<Rightarrow> string \<Rightarrow> p0_tok" where
  "p0_tok_loop prev st [] = st"
| "p0_tok_loop prev st (c # cs) = p0_tok_loop (Some c) (p0_tok_step prev st c) cs"

definition p0_split :: "string \<Rightarrow> string list" where
  "p0_split s =
     (let st = p0_tok_loop None p0_tok_init s
      in if trim (currentPart st) \<noteq> [] then parts st @ [trim (currentPart st)] else parts st)"

definition p0_parsePart :: "runtime \<Rightarrow> string \<Rightarrow> jsval" where
  "p0_parsePart rt p0 =
     (let part = trim p0 in
      if part = [] then JNull
      else if (startsWith part ''{'' \<and> endsWith part ''}'')
              \<or> (startsWith part ''['' \<and> endsWith part '']'') then
        (case JSON_parse rt part of Inr v \<Rightarrow> v | Inl _ \<Rightarrow> JStr part)
      else JStr part)"

text \<open>A \<^verbatim>\<open>JSON.parse\<close> that throws is caught in the second file, and the text is then
  tried as a tuple.\<close>

definition p0_parseArgsData :: "runtime \<Rightarrow> string \<Rightarrow> error + jsval" where
  "p0_parseArgsData rt argsInput =
     (if argsInput = [] then Inl NoInputData
      else
        let cleanInput = p0_cleanInput argsInput;
            json = (if startsWith cleanInput ''['' \<and> endsWith cleanInput '']''
                    then (case JSON_parse rt cleanInput of Inr v \<Rightarrow> Some v | Inl _ \<Rightarrow> None)
                    else None)
        in case json of
             Some v \<Rightarrow> Inr v
           | None \<Rightarrow>
               if startsWith cleanInput ''('' \<and> endsWith cleanInput '')'' then
                 Inr (JArr (map (p0_parsePart rt)
                        (p0_split (trim (substring cleanInput 1 (length cleanInput - 1))))))
               else Inl (InvalidInputFormatReceived (substring cleanInput 0 150)))"

section \<open>extractDataFromArgs\<close>

record extracted =
  attester :: jsval
  merkleProof :: jsval
  zkPassportData :: jsval
  publicKeyG1 :: jsval
  publicKeyG2 :: jsval
  signature :: jsval

text \<open>The third argument, when it is a string, is JSON-parsed; a parse that throws
  leaves the string in place (both files).\<close>

definition parseIfString :: "runtime \<Rightarrow> jsval \<Rightarrow> jsval" where
  "parseIfString rt v =
     (case v of
        JStr s \<Rightarrow> (case JSON_parse rt s of Inr w \<Rightarrow> w | Inl _ \<Rightarrow> v)
      | _ \<Rightarrow> v)"

subsection \<open>rejoin\_validator\_set.js\<close>

text \<open>
  The first file checks nothing but the third argument. Its log line
  \<^verbatim>\<open>JSON.stringify(zkPassportData).substring(0, 100)\<close> throws a TypeError when the third
  argument is \<^verbatim>\<open>undefined\<close>, since \<^verbatim>\<open>JSON.stringify(undefined)\<close> is \<^verbatim>\<open>undefined\<close>.
\<close>

definition rvs_extractDataFromArgs :: "runtime \<Rightarrow> jsval \<Rightarrow> error + extracted" where
  "rvs_extractDataFromArgs rt args =
     (case js_index args 0 of
        Inl e \<Rightarrow> Inl e
      | Inr a0 \<Rightarrow>
     (case js_index args 1 of
        Inl e \<Rightarrow> Inl e
      | Inr a1 \<Rightarrow>
     (case js_index args 2 of
        Inl e \<Rightarrow> Inl e
      | Inr a2 \<Rightarrow>
          if a2 = JUndefined then Inl JsTypeError
          else
            let zk = parseIfString rt a2 in
            if \<not> truthy zk \<or> \<not> typeof_object zk then Inl ZKPassportNotObject
            else
     (case js_index args 3 of
        Inl e \<Rightarrow> Inl e
      | Inr a3 \<Rightarrow>
     (case js_index args 4 of
        Inl e \<Rightarrow> Inl e
      | Inr a4 \<Rightarrow>
     (case js_index args 5 of
        Inl e \<Rightarrow> Inl e
      | Inr a5 \<Rightarrow>
          Inr \<lparr>attester = a0,
               merkleProof = (if truthy a1 then a1 else JArr []),
               zkPassportData = zk,
               publicKeyG1 = a3, publicKeyG2 = a4, signature = a5\<rparr>))))))"

subsection \<open>part\_000\<close>

definition p0_extractDataFromArgs :: "runtime \<Rightarrow> jsval \<Rightarrow> error + extracted" where
  "p0_extractDataFromArgs rt args =
     (case args of
        JArr xs \<Rightarrow>
          if length xs < 6 then Inl TooFewArguments
          else
            let a0 = xs ! 0 in
            if \<not> typeof_string a0 \<or> \<not> (case a0 of JStr a \<Rightarrow> isAddress rt a | _ \<Rightarrow> False)
            then Inl (InvalidAttester a0)
            else
              let mp = (if truthy (xs ! 1) then xs ! 1 else JArr []) in
              if \<not> isArray mp then Inl (MerkleProofNotArray mp)
              else
                let zk = parseIfString rt (xs ! 2) in
                if \<not> truthy zk \<or> \<not> typeof_object zk then Inl ZKPassportNotObject
                else if \<not> truthy (xs ! 3) \<or> \<not> truthy (xs ! 4) \<or> \<not> truthy (xs ! 5)
                then Inl MissingBLS
                else
                  Inr \<lparr>attester = a0, merkleProof = mp, zkPassportData = zk,
                       publicKeyG1 = xs ! 3, publicKeyG2 = xs ! 4, signature = xs ! 5\<rparr>
      | _ \<Rightarrow> Inl TooFewArguments)"

section \<open>callAddValidator\<close>

text \<open>What the script does to the world, in order: the questions it asks, the RPC
  read, the contract call with its parameter list and gas limit, the wait for the
  receipt, and the lines it prints that a claim reads.\<close>

datatype message =
    NoPrivateKey
  | WalletCreated string
  | NoArgsData
  | DataExtracted
  | AddressMismatch
  | Cancelled
  | Success receipt
  | Failed error
  | Troubleshooting

datatype event =
    Question string
  | EstimateGas "jsval list"
  | SendTransaction "jsval list" int
  | WaitForReceipt string
  | Print message

definition callParams :: "extracted \<Rightarrow> jsval list" where
  "callParams d =
     [attester d, merkleProof d, zkPassportData d, publicKeyG1 d, publicKeyG2 d, signature d]"

subsection \<open>rejoin\_validator\_set.js\<close>

text \<open>
  The first file is written against two major versions of the ethers library at once,
  and behaves differently under each:
  \<^item> \<^verbatim>\<open>contract.addValidator.estimateGas\<close> exists in version 6 only. Under version 5 the
    call is a call of \<^verbatim>\<open>undefined\<close>: it throws a TypeError before any RPC read, and the
    inner \<^verbatim>\<open>catch\<close> takes that for a failed estimate.
  \<^item> \<^verbatim>\<open>ethers.BigNumber\<close> exists in version 5 only. Under version 6 the fallback
    \<^verbatim>\<open>ethers.BigNumber.from('2000000')\<close> throws a TypeError inside the \<^verbatim>\<open>catch\<close> block.
  \<^item> Under version 6 an estimate is a BigInt, which has no \<^verbatim>\<open>mul\<close>: building the gas limit
    \<^verbatim>\<open>gasEstimate.mul(120).div(100)\<close> throws a TypeError before \<^verbatim>\<open>contract.addValidator\<close>
    is called.

  So under version 5 the gas limit is always that of the fallback, and under version 6
  the function throws before the contract call, whatever the estimate. The outer
  \<^verbatim>\<open>catch\<close> prints the error and throws it on. The division of the version 5 big numbers
  truncates.
\<close>

datatype ethers = EthersV5 | EthersV6

definition rvs_callAddValidator ::
  "ethers \<Rightarrow> runtime \<Rightarrow> string \<Rightarrow> extracted \<Rightarrow> event list \<times> (error + receipt)" where
  "rvs_callAddValidator lib rt wallet extractedData =
     (case lib of
        EthersV5 \<Rightarrow>
          (let gasEstimate = (2000000 :: int);
               gasLimit = (gasEstimate * 120) sdiv 100;
               sent = [SendTransaction (callParams extractedData) gasLimit]
           in case addValidator rt (callParams extractedData) gasLimit of
                Inl e \<Rightarrow> (sent, Inl e)
              | Inr tx \<Rightarrow>
                  (case wait rt tx of
                     Inl e \<Rightarrow> (sent @ [WaitForReceipt tx], Inl e)
                   | Inr r \<Rightarrow> (sent @ [WaitForReceipt tx], Inr r)))
      | EthersV6 \<Rightarrow>
          (case estimateGas rt (callParams extractedData) of
             Inr g \<Rightarrow> ([EstimateGas (callParams extractedData)], Inl JsTypeError)
           | Inl _ \<Rightarrow> ([EstimateGas (callParams extractedData)], Inl JsTypeError)))"

subsection \<open>part\_000\<close>

text \<open>The second file is written against version 6 throughout, as its comments say:
  \<^verbatim>\<open>gasEstimate * 120n / 100n\<close> on BigInt.\<close>

definition p0_callAddValidator :: "runtime \<Rightarrow> string \<Rightarrow> extracted \<Rightarrow> event list \<times> (error + receipt)" where
  "p0_callAddValidator rt wallet extractedData =
     (let gasEstimate =
            (case estimateGas rt (callParams extractedData) of
               Inr g \<Rightarrow> g
             | Inl _ \<Rightarrow> 2000000);
          gasLimitWithBuffer = (gasEstimate * 120) sdiv 100;
          sent = [EstimateGas (callParams extractedData),
                  SendTransaction (callParams extractedData) gasLimitWithBuffer]
      in case addValidator rt (callParams extractedData) gasLimitWithBuffer of
           Inl e \<Rightarrow> (sent, Inl e)
         | Inr tx \<Rightarrow>
             (case wait rt tx of
                Inl e \<Rightarrow> (sent @ [WaitForReceipt tx], Inl e)
              | Inr r \<Rightarrow> (sent @ [WaitForReceipt tx], Inr r)))"

section \<open>main\<close>

text \<open>
  \<^verbatim>\<open>getUserInput\<close> resolves to the trimmed line the user types. The three lines typed in
  answer to the three questions are arguments of \<open>main\<close>; a question the run does not
  reach leaves its line unread. The body of the \<^verbatim>\<open>try\<close> block yields the events so far
  and either an error thrown or a normal end; \<open>main\<close> adds what the \<^verbatim>\<open>catch\<close> block
  prints. A promise is resolved or rejected.
\<close>

definition getUserInput :: "string \<Rightarrow> string" where
  "getUserInput line = trim line"

datatype outcome = Resolved | Rejected error

text \<open>\<^verbatim>\<open>v.toLowerCase()\<close> on a value that need not be a string.\<close>

definition js_toLowerCase :: "jsval \<Rightarrow> error + string" where
  "js_toLowerCase v = (case v of JStr s \<Rightarrow> Inr (toLowerCase s) | _ \<Rightarrow> Inl JsTypeError)"

subsection \<open>rejoin\_validator\_set.js\<close>

definition rvs_main_try ::
  "ethers \<Rightarrow> runtime \<Rightarrow> string \<Rightarrow> string \<Rightarrow> string \<Rightarrow> event list \<times> (error + unit)" where
  "rvs_main_try lib rt line1 line2 line3 =
     (let privateKey = getUserInput line1; ev1 = [Question ''privateKey''] in
      if privateKey = [] then (ev1 @ [Print NoPrivateKey], Inr ())
      else case Wallet rt privateKey of
        Inl e \<Rightarrow> (ev1, Inl e)
      | Inr address \<Rightarrow>
          let argsInput = getUserInput line2;
              ev2 = ev1 @ [Print (WalletCreated address), Question ''args'']
          in
          if argsInput = [] then (ev2 @ [Print NoArgsData], Inr ())
          else case rvs_parseArgsData rt argsInput of
            Inl e \<Rightarrow> (ev2, Inl e)
          | Inr args \<Rightarrow>
          (case rvs_extractDataFromArgs rt args of
            Inl e \<Rightarrow> (ev2, Inl e)
          | Inr extractedData \<Rightarrow>
          (let ev3 = ev2 @ [Print DataExtracted] in
           case js_toLowerCase (attester extractedData) of
            Inl e \<Rightarrow> (ev3, Inl e)
          | Inr lower \<Rightarrow>
              let mismatch = (toLowerCase address \<noteq> lower);
                  proceed = getUserInput line3;
                  ev4 = (if mismatch then ev3 @ [Print AddressMismatch, Question ''proceed'']
                         else ev3)
              in
              if mismatch \<and> toLowerCase proceed \<noteq> ''y'' then (ev4 @ [Print Cancelled], Inr ())
              else
                (case rvs_callAddValidator lib rt address extractedData of
                   (evs, Inl e) \<Rightarrow> (ev4 @ evs, Inl e)
                 | (evs, Inr r) \<Rightarrow> (ev4 @ evs @ [Print (Success r)], Inr ())))))"

definition rvs_main ::
  "ethers \<Rightarrow> runtime \<Rightarrow> string \<Rightarrow> string \<Rightarrow> string \<Rightarrow> event list \<times> outcome" where
  "rvs_main lib rt line1 line2 line3 =
     (case rvs_main_try lib rt line1 line2 line3 of
        (evs, Inr _) \<Rightarrow> (evs, Resolved)
      | (evs, Inl e) \<Rightarrow> (evs @ [Print (Failed e), Print Troubleshooting], Resolved))"


subsection \<open>part\_000\<close>

definition p0_main_try :: "runtime \<Rightarrow> string \<Rightarrow> string \<Rightarrow> string \<Rightarrow> event list \<times> (error + unit)" where
  "p0_main_try rt line1 line2 line3 =
     (let privateKey = getUserInput line1; ev1 = [Question ''privateKey''] in
      if privateKey = [] then (ev1 @ [Print NoPrivateKey], Inr ())
      else case Wallet rt privateKey of
        Inl e \<Rightarrow> (ev1, Inl (InvalidPrivateKey e))
      | Inr address \<Rightarrow>
          let argsInput = getUserInput line2;
              ev2 = ev1 @ [Print (WalletCreated address), Question ''args'']
          in
          case p0_parseArgsData rt argsInput of
            Inl e \<Rightarrow> (ev2, Inl e)
          | Inr args \<Rightarrow>
          (case p0_extractDataFromArgs rt args of
            Inl e \<Rightarrow> (ev2, Inl e)
          | Inr extractedData \<Rightarrow>
          (let ev3 = ev2 @ [Print DataExtracted] in
           case js_toLowerCase (attester extractedData) of
            Inl e \<Rightarrow> (ev3, Inl e)
          | Inr lower \<Rightarrow>
              let mismatch = (toLowerCase address \<noteq> lower);
                  proceed = getUserInput line3;
                  ev4 = (if mismatch then ev3 @ [Print AddressMismatch, Question ''proceed'']
                         else ev3)
              in
              if mismatch \<and> toLowerCase proceed \<noteq> ''y'' then (ev4 @ [Print Cancelled], Inr ())
              else
                (case p0_callAddValidator rt address extractedData of
                   (evs, Inl e) \<Rightarrow> (ev4 @ evs, Inl e)
                 | (evs, Inr r) \<Rightarrow> (ev4 @ evs @ [Print (Success r)], Inr ())))))"

definition p0_main :: "runtime \<Rightarrow> string \<Rightarrow> string \<Rightarrow> string \<Rightarrow> event list \<times> outcome" where
  "p0_main rt line1 line2 line3 =
     (case p0_main_try rt line1 line2 line3 of
        (evs, Inr _) \<Rightarrow> (evs, Resolved)
      | (evs, Inl e) \<Rightarrow> (evs @ [Print (Failed e), Print Troubleshooting], Resolved))"


section \<open>The two input formats, in the words of the spec\<close>

text \<open>
  The input after prefix removal and trimming: the prefix is \<^verbatim>\<open>args:\<close> at the very
  start. The two forms: a JSON array in brackets, a tuple in parentheses. An input
  carries no prefix when its trimmed text starts with neither \<^verbatim>\<open>args:\<close> nor
  \<^verbatim>\<open>args :\<close>, the two prefixes the second file looks for.
\<close>

definition spec_cleanInput :: "string \<Rightarrow> string" where
  "spec_cleanInput s = trim (if startsWith s ''args:'' then drop 5 s else s)"

definition arrayForm :: "string \<Rightarrow> bool" where
  "arrayForm t \<longleftrightarrow> startsWith t ''['' \<and> endsWith t '']''"

definition tupleForm :: "string \<Rightarrow> bool" where
  "tupleForm t \<longleftrightarrow> startsWith t ''('' \<and> endsWith t '')''"

definition unprefixed :: "string \<Rightarrow> bool" where
  "unprefixed s \<longleftrightarrow> \<not> startsWith (trim s) ''args:'' \<and> \<not> startsWith (trim s) ''args :''"

section \<open>Tuple renderings\<close>

text \<open>
  The text between the parentheses of a tuple rendering, as the spec describes it:
  elements separated by commas, where an element is made of plain characters, quoted
  strings and groups in parentheses, braces or square brackets, and a group may hold
  commas, strings and further groups. A plain character is neither a quote, nor a
  bracket of any kind, nor a comma. A quoted string runs from a quote to the next quote of
  the same kind and does not end in a backslash.
\<close>

definition plain :: "char \<Rightarrow> bool" where
  "plain c \<longleftrightarrow> c \<notin> set [CHR 0x22, CHR 0x27, CHR ''('', CHR '')'', CHR ''{'', CHR ''}'',
                           CHR ''['', CHR '']'', CHR '','']"

definition quoted :: "char \<Rightarrow> string \<Rightarrow> bool" where
  "quoted q body \<longleftrightarrow>
     (q = CHR 0x22 \<or> q = CHR 0x27) \<and> q \<notin> set body \<and> (body \<noteq> [] \<longrightarrow> last body \<noteq> CHR 0x5C)"

definition brackets :: "(char \<times> char) list" where
  "brackets = [(CHR ''('', CHR '')''), (CHR ''{'', CHR ''}''), (CHR ''['', CHR '']'')]"

inductive nested :: "string \<Rightarrow> bool" where
  nested_Nil: "nested []"
| nested_plain: "plain c \<or> c = CHR '','' \<Longrightarrow> nested w \<Longrightarrow> nested (c # w)"
| nested_quoted: "quoted q body \<Longrightarrow> nested w \<Longrightarrow> nested (q # body @ q # w)"
| nested_group: "(l, r) \<in> set brackets \<Longrightarrow> nested u \<Longrightarrow> nested w \<Longrightarrow> nested (l # u @ r # w)"

inductive element :: "string \<Rightarrow> bool" where
  element_Nil: "element []"
| element_plain: "plain c \<Longrightarrow> element w \<Longrightarrow> element (c # w)"
| element_quoted: "quoted q body \<Longrightarrow> element w \<Longrightarrow> element (q # body @ q # w)"
| element_group: "(l, r) \<in> set brackets \<Longrightarrow> nested u \<Longrightarrow> element w \<Longrightarrow> element (l # u @ r # w)"

text \<open>The rendering of a list of elements: commas between them.\<close>

fun join :: "string list \<Rightarrow> string" where
  "join [] = []"
| "join [e] = e"
| "join (e # es) = e @ CHR '','' # join es"

text \<open>States of the second file's tokenizer outside any string: at the top level, and
  inside at least one group.\<close>

definition p0_top :: "p0_tok \<Rightarrow> bool" where
  "p0_top st \<longleftrightarrow>
     \<not> p0_tok.inString st \<and> p0_tok.stringChar st = []
     \<and> p0_tok.depth st = 0 \<and> p0_tok.braceDepth st = 0 \<and> bracketDepth st = 0"

definition p0_deep :: "p0_tok \<Rightarrow> bool" where
  "p0_deep st \<longleftrightarrow>
     \<not> p0_tok.inString st \<and> p0_tok.stringChar st = []
     \<and> 0 \<le> p0_tok.depth st \<and> 0 \<le> p0_tok.braceDepth st \<and> 0 \<le> bracketDepth st
     \<and> (0 < p0_tok.depth st \<or> 0 < p0_tok.braceDepth st \<or> 0 < bracketDepth st)"

text \<open>The character before the next one, after a text has been read.\<close>

definition lastOr :: "char option \<Rightarrow> string \<Rightarrow> char option" where
  "lastOr prev w = (if w = [] then prev else Some (last w))"

section \<open>Reading a run\<close>

text \<open>The contract calls among the events of a run, each with its parameter list and
  gas limit, in the order they were made.\<close>

fun submissions :: "event list \<Rightarrow> (jsval list \<times> int) list" where
  "submissions [] = []"
| "submissions (SendTransaction ps g # evs) = (ps, g) # submissions evs"
| "submissions (_ # evs) = submissions evs"

definition isSubmission :: "event \<Rightarrow> bool" where
  "isSubmission ev = (case ev of SendTransaction _ _ \<Rightarrow> True | _ \<Rightarrow> False)"


section \<open>A runtime for concrete runs\<close>

text \<open>
  To run the definitions on concrete inputs the runtime has to be filled in. This one
  parses the two JSON texts \<^verbatim>\<open>[]\<close> and \<^verbatim>\<open>{}\<close>, takes every text that begins with
  \<^verbatim>\<open>0x\<close> for an address, gives every private key the wallet address \<^verbatim>\<open>0xAB\<close>,
  estimates 100000 gas and mines every transaction in block 7.
\<close>

definition demo_runtime :: runtime where
  "demo_runtime =
     \<lparr>JSON_parse = (\<lambda>s. if s = ''[]'' then Inr (JArr [])
                        else if s = ''{}'' then Inr (JObj [])
                        else Inl (LibraryError ''SyntaxError'')),
      isAddress = (\<lambda>s. take 2 s = ''0x''),
      Wallet = (\<lambda>k. Inr ''0xAB''),
      estimateGas = (\<lambda>ps. Inr 100000),
      addValidator = (\<lambda>ps g. Inr ''0xhash''),
      wait = (\<lambda>h. Inr \<lparr>transactionHash = h, blockNumber = 7, gasUsed = 90000\<rparr>)\<rparr>"

text \<open>Three variants: a wallet constructor that rejects every key, a node whose gas
  estimate fails, and a contract call that fails.\<close>

definition demo_runtime_bad_key :: runtime where
  "demo_runtime_bad_key =
     demo_runtime\<lparr>Wallet := \<lambda>k. Inl (LibraryError ''invalid private key'')\<rparr>"

definition demo_runtime_no_estimate :: runtime where
  "demo_runtime_no_estimate =
     demo_runtime\<lparr>estimateGas := \<lambda>ps. Inl (LibraryError ''execution reverted'')\<rparr>"

definition demo_runtime_no_funds :: runtime where
  "demo_runtime_no_funds =
     demo_runtime\<lparr>addValidator := \<lambda>ps g. Inl (LibraryError ''insufficient funds'')\<rparr>"

text \<open>The six arguments of the concrete runs, as pasted and as extracted.\<close>

definition demo_args :: string where
  "demo_args = ''(0xAB, [], {}, g1, g2, sig)''"

definition demo_extracted :: extracted where
  "demo_extracted =
     \<lparr>attester = JStr ''0xAB'', merkleProof = JArr [], zkPassportData = JObj [],
      publicKeyG1 = JStr ''g1'', publicKeyG2 = JStr ''g2'', signature = JStr ''sig''\<rparr>"

text \<open>The same arguments with another attester than the wallet's address.\<close>

definition demo_args_other :: string where
  "demo_args_other = ''(0xCD, [], {}, g1, g2, sig)''"

definition demo_extracted_other :: extracted where
  "demo_extracted_other =
     \<lparr>attester = JStr ''0xCD'', merkleProof = JArr [], zkPassportData = JObj [],
      publicKeyG1 = JStr ''g1'', publicKeyG2 = JStr ''g2'', signature = JStr ''sig''\<rparr>"

section \<open>Facts about strings\<close>

lemmas str_defs =
  startsWith_def endsWith_def trim_def is_space_def slice_def substring_def substring_from_def

lemma dropWhile_keep: "\<not> P c \<Longrightarrow> dropWhile P (xs @ c # ys) = dropWhile P xs @ c # ys"
  by (induction xs) auto

lemma dropWhile_all: "\<forall>c\<in>set ws. P c \<Longrightarrow> dropWhile P (ws @ s) = dropWhile P s"
  by (induction ws) auto

lemma trim_Cons: "\<not> is_space c \<Longrightarrow> trim (c # s) = c # rev (dropWhile is_space (rev s))"
  using dropWhile_keep [of is_space c "rev s" "[]"] by (simp add: trim_def)

section \<open>The \<^verbatim>\<open>args:\<close> prefix\<close>

text \<open>
  The first file removes the prefix with the regular expression \<^verbatim>\<open>/^args:\s*/\<close>: a
  bracketed text parses the same with the prefix and any white space before it as
  without.
\<close>

lemma rvs_prefix_removed:
  assumes ws: "\<forall>c\<in>set ws. is_space c" and s: "startsWith s ''[''"
  shows "rvs_parseArgsData rt (''args:'' @ ws @ s) = rvs_parseArgsData rt s"
proof -
  from s obtain s' where s': "s = CHR ''['' # s'"
    by (cases s) (auto simp: startsWith_def)
  have nsp: "\<not> is_space CHR ''[''" by (simp add: is_space_def)
  have a: "rvs_removePrefix (''args:'' @ ws @ s) = s"
    using ws nsp by (simp add: rvs_removePrefix_def startsWith_def dropWhile_all s')
  have b: "rvs_removePrefix s = s"
    by (simp add: rvs_removePrefix_def startsWith_def s')
  show ?thesis
    unfolding rvs_parseArgsData_def rvs_cleanInput_def a b ..
qed

text \<open>
  The second file cuts with \<^verbatim>\<open>substring(4)\<close>, one short of the five characters of
  \<^verbatim>\<open>args:\<close>, so the colon stays at the head of the cleaned text, whatever follows it.
\<close>

lemma p0_cleanInput_args:
  "trim x = ''args:'' @ u \<Longrightarrow> p0_cleanInput x = trim (CHR '':'' # u)"
  by (simp add: p0_cleanInput_def Let_def startsWith_def substring_from_def)

lemma p0_prefix_kept: "\<exists>r. p0_cleanInput (''args:'' @ s) = CHR '':'' # r"
proof -
  have nsp: "\<not> is_space CHR ''a''" "\<not> is_space CHR '':''"
    by (simp_all add: is_space_def)
  have t: "trim (''args:'' @ s) = CHR ''a'' # rev (dropWhile is_space (rev (''rgs:'' @ s)))"
    using trim_Cons [OF nsp(1), of "''rgs:'' @ s"] by simp
  have "\<exists>u. rev (dropWhile is_space (rev (''rgs:'' @ s))) = ''rgs:'' @ u"
  proof -
    have "dropWhile is_space (rev s @ '':sgr'') = dropWhile is_space (rev s) @ '':sgr''"
      using dropWhile_keep [of is_space "CHR '':''" "rev s" "''sgr''"] nsp(2) by simp
    then show ?thesis by simp
  qed
  then obtain u where u: "trim (''args:'' @ s) = ''args:'' @ u"
    using t by auto
  have "p0_cleanInput (''args:'' @ s) = trim (CHR '':'' # u)"
    using u by (rule p0_cleanInput_args)
  then show ?thesis
    using trim_Cons [OF nsp(2)] by simp
qed

text \<open>So the second file rejects every input that starts with the prefix.\<close>

lemma p0_prefixed_rejected:
  "\<exists>r. p0_parseArgsData rt (''args:'' @ s) = Inl (InvalidInputFormatReceived r)"
proof -
  obtain r where r: "p0_cleanInput (''args:'' @ s) = CHR '':'' # r"
    using p0_prefix_kept by blast
  have "''args:'' @ s \<noteq> []" by simp
  then show ?thesis
    unfolding p0_parseArgsData_def r by (simp add: startsWith_def)
qed

text \<open>
  Claim C4: for an input made of \<^verbatim>\<open>args:\<close>, optional white space and a well-formed JSON
  array, parseArgsData removes the whole prefix and returns the parsed array, as for the
  input without the prefix. In the second file the input \<^verbatim>\<open>args: []\<close> is rejected as
  an invalid format (the cleaned text is \<^verbatim>\<open>: []\<close>), while \<^verbatim>\<open>[]\<close> alone parses to
  the empty array.
\<close>

theorem p0_parseArgsData_keeps_colon:
  "p0_parseArgsData demo_runtime ''args: []'' = Inl (InvalidInputFormatReceived '': []'')
   \<and> p0_parseArgsData demo_runtime ''[]'' = Inr (JArr [])
   \<and> rvs_parseArgsData demo_runtime ''args: []'' = Inr (JArr [])"
  by (simp add: p0_parseArgsData_def p0_cleanInput_def rvs_parseArgsData_def
      rvs_cleanInput_def rvs_removePrefix_def demo_runtime_def str_defs)

section \<open>Splitting a tuple\<close>

text \<open>
  The second file's tokenizer reads a quoted string, a group and a whole element without
  ending a part, and ends one part at each comma between elements. So the rendering of
  \<open>N\<close> elements splits into \<open>N\<close> parts, the trimmed elements, unless the last element
  is blank, which the tokenizer drops. A quoted string here holds no quote of its own
  kind and does not end in a backslash: the tokenizer takes a closing quote that follows
  a backslash for an escaped one, also when the backslash is itself escaped.
\<close>

lemma lastOr_simps [simp]:
  "lastOr prev [] = prev" "lastOr prev (c # w) = lastOr (Some c) w"
  "lastOr prev (u @ w) = lastOr (lastOr prev u) w"
  by (auto simp: lastOr_def)

lemma scan_in_string:
  "p0_tok.inString st \<Longrightarrow> p0_tok.stringChar st = [q] \<Longrightarrow> q \<notin> set body \<Longrightarrow>
     p0_tok_loop prev st (body @ rest)
       = p0_tok_loop (lastOr prev body) (st\<lparr>currentPart := currentPart st @ body\<rparr>) rest"
proof (induction body arbitrary: prev st)
  case Nil
  then show ?case by simp
next
  case (Cons c body)
  have step: "p0_tok_step prev st c = st\<lparr>currentPart := currentPart st @ [c]\<rparr>"
    using Cons.prems by (auto simp: p0_tok_step_def Let_def)
  show ?case
    using Cons.IH [of "st\<lparr>currentPart := currentPart st @ [c]\<rparr>" "Some c"] Cons.prems
    by (simp add: step)
qed

lemma scan_quoted:
  assumes "quoted q body" "\<not> p0_tok.inString st" "p0_tok.stringChar st = []"
  shows "p0_tok_loop prev st (q # body @ q # rest)
           = p0_tok_loop (Some q) (st\<lparr>currentPart := currentPart st @ q # body @ [q]\<rparr>) rest"
proof -
  define s1 where
    "s1 = st\<lparr>p0_tok.inString := True, p0_tok.stringChar := [q], currentPart := currentPart st @ [q]\<rparr>"
  define s2 where "s2 = s1\<lparr>currentPart := currentPart s1 @ body\<rparr>"
  have open_q: "p0_tok_step prev st q = s1"
    using assms by (auto simp: p0_tok_step_def quoted_def s1_def)
  have body: "p0_tok_loop (Some q) s1 (body @ q # rest) = p0_tok_loop (lastOr (Some q) body) s2 (q # rest)"
    unfolding s2_def using assms by (intro scan_in_string) (auto simp: quoted_def s1_def)
  have nb: "lastOr (Some q) body \<noteq> Some (CHR 0x5C)"
    using assms by (auto simp: lastOr_def quoted_def)
  have close_q: "p0_tok_step (lastOr (Some q) body) s2 q
       = st\<lparr>currentPart := currentPart st @ q # body @ [q]\<rparr>"
    using nb assms(2,3) by (cases st) (simp add: p0_tok_step_def Let_def s1_def s2_def)
  have "p0_tok_loop prev st (q # body @ q # rest) = p0_tok_loop (Some q) s1 (body @ q # rest)"
    by (simp only: p0_tok_loop.simps open_q)
  also have "\<dots> = p0_tok_loop (lastOr (Some q) body) s2 (q # rest)"
    by (rule body)
  also have "\<dots> = p0_tok_loop (Some q) (st\<lparr>currentPart := currentPart st @ q # body @ [q]\<rparr>) rest"
    by (simp only: p0_tok_loop.simps close_q)
  finally show ?thesis .
qed

lemma step_plain:
  "\<not> p0_tok.inString st \<Longrightarrow> plain c \<Longrightarrow>
     p0_tok_step prev st c = st\<lparr>currentPart := currentPart st @ [c]\<rparr>"
  by (simp add: p0_tok_step_def plain_def)

lemma step_comma_deep:
  "p0_deep st \<Longrightarrow> p0_tok_step prev st CHR '','' = st\<lparr>currentPart := currentPart st @ '',''\<rparr>"
  by (auto simp: p0_tok_step_def p0_deep_def)

lemma step_comma_top:
  "p0_top st \<Longrightarrow> p0_tok_step prev st CHR '','' =
     st\<lparr>p0_tok.parts := p0_tok.parts st @ [trim (currentPart st)], currentPart := []\<rparr>"
  by (auto simp: p0_tok_step_def p0_top_def)

lemma deep_cp [simp]: "p0_deep (st\<lparr>currentPart := x\<rparr>) = p0_deep st"
  by (simp add: p0_deep_def)

lemma top_cp [simp]: "p0_top (st\<lparr>currentPart := x\<rparr>) = p0_top st"
  by (simp add: p0_top_def)

lemma top_or_deep:
  "p0_top st \<or> p0_deep st \<longleftrightarrow>
     \<not> p0_tok.inString st \<and> p0_tok.stringChar st = [] \<and> 0 \<le> p0_tok.depth st
     \<and> 0 \<le> p0_tok.braceDepth st \<and> 0 \<le> bracketDepth st"
  unfolding p0_top_def p0_deep_def by arith

lemma open_paren:
  assumes "p0_top st \<or> p0_deep st"
  shows "p0_deep (p0_tok_step prev st CHR ''('')"
    and "p0_tok_step p' ((p0_tok_step prev st CHR ''('')\<lparr>currentPart := currentPart (p0_tok_step prev st CHR ''('') @ u\<rparr>) CHR '')''
           = st\<lparr>currentPart := currentPart st @ CHR ''('' # u @ '')''\<rparr>"
  using assms unfolding top_or_deep
  by (simp_all add: p0_tok_step_def p0_deep_def)

lemma open_brace:
  assumes "p0_top st \<or> p0_deep st"
  shows "p0_deep (p0_tok_step prev st CHR ''{'')"
    and "p0_tok_step p' ((p0_tok_step prev st CHR ''{'')\<lparr>currentPart := currentPart (p0_tok_step prev st CHR ''{'') @ u\<rparr>) CHR ''}''
           = st\<lparr>currentPart := currentPart st @ CHR ''{'' # u @ ''}''\<rparr>"
  using assms unfolding top_or_deep
  by (simp_all add: p0_tok_step_def p0_deep_def)

lemma open_bracket:
  assumes "p0_top st \<or> p0_deep st"
  shows "p0_deep (p0_tok_step prev st CHR ''['')"
    and "p0_tok_step p' ((p0_tok_step prev st CHR ''['')\<lparr>currentPart := currentPart (p0_tok_step prev st CHR ''['') @ u\<rparr>) CHR '']''
           = st\<lparr>currentPart := currentPart st @ CHR ''['' # u @ '']''\<rparr>"
  using assms unfolding top_or_deep
  by (simp_all add: p0_tok_step_def p0_deep_def)

lemma open_close:
  assumes "(l, r) \<in> set brackets" "p0_top st \<or> p0_deep st"
  shows "p0_deep (p0_tok_step prev st l)"
    and "p0_tok_step p' ((p0_tok_step prev st l)\<lparr>currentPart := currentPart (p0_tok_step prev st l) @ u\<rparr>) r
           = st\<lparr>currentPart := currentPart st @ l # u @ [r]\<rparr>"
proof -
  from assms(1) consider "l = CHR ''(''" "r = CHR '')''" | "l = CHR ''{''" "r = CHR ''}''"
    | "l = CHR ''[''" "r = CHR '']''"
    by (auto simp: brackets_def)
  then show "p0_deep (p0_tok_step prev st l)"
    using open_paren(1) open_brace(1) open_bracket(1) assms(2) by cases simp_all
  from assms(1) consider "l = CHR ''(''" "r = CHR '')''" | "l = CHR ''{''" "r = CHR ''}''"
    | "l = CHR ''[''" "r = CHR '']''"
    by (auto simp: brackets_def)
  then show "p0_tok_step p' ((p0_tok_step prev st l)\<lparr>currentPart := currentPart (p0_tok_step prev st l) @ u\<rparr>) r
           = st\<lparr>currentPart := currentPart st @ l # u @ [r]\<rparr>"
    using open_paren(2) [OF assms(2)] open_brace(2) [OF assms(2)] open_bracket(2) [OF assms(2)]
    by cases simp_all
qed

lemma scan_nested:
  "nested w \<Longrightarrow> p0_deep st \<Longrightarrow>
     p0_tok_loop prev st (w @ rest)
       = p0_tok_loop (lastOr prev w) (st\<lparr>currentPart := currentPart st @ w\<rparr>) rest"
proof (induction w arbitrary: prev st rest rule: nested.induct)
  case nested_Nil
  then show ?case by simp
next
  case (nested_plain c w)
  have "p0_tok_step prev st c = st\<lparr>currentPart := currentPart st @ [c]\<rparr>"
    using nested_plain.hyps(1) nested_plain.prems step_plain [of st c prev] step_comma_deep [of st prev]
    by (auto simp: p0_deep_def)
  then show ?case
    using nested_plain.IH [of "st\<lparr>currentPart := currentPart st @ [c]\<rparr>" "Some c" rest]
      nested_plain.prems
    by simp
next
  case (nested_quoted q body w)
  have "p0_tok_loop prev st ((q # body @ q # w) @ rest)
          = p0_tok_loop (Some q) (st\<lparr>currentPart := currentPart st @ q # body @ [q]\<rparr>) (w @ rest)"
    using scan_quoted [OF nested_quoted.hyps(1), of st prev "w @ rest"] nested_quoted.prems
    by (simp add: p0_deep_def)
  then show ?case
    using nested_quoted.IH [of "st\<lparr>currentPart := currentPart st @ q # body @ [q]\<rparr>" "Some q" rest]
      nested_quoted.prems
    by simp
next
  case (nested_group l r u w)
  define s1 where "s1 = p0_tok_step prev st l"
  have d1: "p0_deep s1"
    unfolding s1_def using nested_group.hyps(1) nested_group.prems by (intro open_close(1)) auto
  have cl: "p0_tok_step p' (s1\<lparr>currentPart := currentPart s1 @ u\<rparr>) r
              = st\<lparr>currentPart := currentPart st @ l # u @ [r]\<rparr>" for p'
    unfolding s1_def using nested_group.hyps(1) nested_group.prems by (intro open_close(2)) auto
  have "p0_tok_loop prev st ((l # u @ r # w) @ rest) = p0_tok_loop (Some l) s1 (u @ r # w @ rest)"
    by (simp add: s1_def)
  also have "\<dots> = p0_tok_loop (lastOr (Some l) u) (s1\<lparr>currentPart := currentPart s1 @ u\<rparr>) (r # w @ rest)"
    using d1 by (rule nested_group.IH(1))
  also have "\<dots> = p0_tok_loop (Some r) (st\<lparr>currentPart := currentPart st @ l # u @ [r]\<rparr>) (w @ rest)"
    by (simp only: p0_tok_loop.simps cl)
  also have "\<dots> = p0_tok_loop (lastOr (Some r) w)
        (st\<lparr>currentPart := currentPart st @ l # u @ [r]\<rparr>\<lparr>currentPart :=
            currentPart (st\<lparr>currentPart := currentPart st @ l # u @ [r]\<rparr>) @ w\<rparr>) rest"
    using nested_group.prems by (intro nested_group.IH(2)) simp
  finally show ?case by simp
qed

lemma scan_element:
  "element w \<Longrightarrow> p0_top st \<Longrightarrow>
     p0_tok_loop prev st (w @ rest)
       = p0_tok_loop (lastOr prev w) (st\<lparr>currentPart := currentPart st @ w\<rparr>) rest"
proof (induction w arbitrary: prev st rest rule: element.induct)
  case element_Nil
  then show ?case by simp
next
  case (element_plain c w)
  have "p0_tok_step prev st c = st\<lparr>currentPart := currentPart st @ [c]\<rparr>"
    using element_plain.hyps(1) element_plain.prems step_plain [of st c prev]
    by (auto simp: p0_top_def)
  then show ?case
    using element_plain.IH [of "st\<lparr>currentPart := currentPart st @ [c]\<rparr>" "Some c" rest]
      element_plain.prems
    by simp
next
  case (element_quoted q body w)
  have "p0_tok_loop prev st ((q # body @ q # w) @ rest)
          = p0_tok_loop (Some q) (st\<lparr>currentPart := currentPart st @ q # body @ [q]\<rparr>) (w @ rest)"
    using scan_quoted [OF element_quoted.hyps(1), of st prev "w @ rest"] element_quoted.prems
    by (simp add: p0_top_def)
  then show ?case
    using element_quoted.IH [of "st\<lparr>currentPart := currentPart st @ q # body @ [q]\<rparr>" "Some q" rest]
      element_quoted.prems
    by simp
next
  case (element_group l r u w)
  define s1 where "s1 = p0_tok_step prev st l"
  have d1: "p0_deep s1"
    unfolding s1_def using element_group.hyps(1) element_group.prems by (intro open_close(1)) auto
  have cl: "p0_tok_step p' (s1\<lparr>currentPart := currentPart s1 @ u\<rparr>) r
              = st\<lparr>currentPart := currentPart st @ l # u @ [r]\<rparr>" for p'
    unfolding s1_def using element_group.hyps(1) element_group.prems by (intro open_close(2)) auto
  have "p0_tok_loop prev st ((l # u @ r # w) @ rest) = p0_tok_loop (Some l) s1 (u @ r # w @ rest)"
    by (simp add: s1_def)
  also have "\<dots> = p0_tok_loop (lastOr (Some l) u) (s1\<lparr>currentPart := currentPart s1 @ u\<rparr>) (r # w @ rest)"
    using element_group.hyps(2) d1 by (rule scan_nested)
  also have "\<dots> = p0_tok_loop (Some r) (st\<lparr>currentPart := currentPart st @ l # u @ [r]\<rparr>) (w @ rest)"
    by (simp only: p0_tok_loop.simps cl)
  also have "\<dots> = p0_tok_loop (lastOr (Some r) w)
        (st\<lparr>currentPart := currentPart st @ l # u @ [r]\<rparr>\<lparr>currentPart :=
            currentPart (st\<lparr>currentPart := currentPart st @ l # u @ [r]\<rparr>) @ w\<rparr>) rest"
    using element_group.prems by (intro element_group.IH) simp
  finally show ?case by simp
qed

lemma scan_join:
  "es \<noteq> [] \<Longrightarrow> \<forall>e\<in>set es. element e \<Longrightarrow> p0_top st \<Longrightarrow>
     p0_tok.parts (p0_tok_loop prev st (join es))
        = p0_tok.parts st @ map trim (butlast ((currentPart st @ hd es) # tl es))
     \<and> currentPart (p0_tok_loop prev st (join es)) = last ((currentPart st @ hd es) # tl es)"
proof (induction es arbitrary: prev st rule: join.induct)
  case 1
  then show ?case by simp
next
  case (2 e)
  then show ?case
    using scan_element [of e st prev "[]"] by simp
next
  case (3 e e' es)
  define s1 where "s1 = st\<lparr>currentPart := currentPart st @ e\<rparr>"
  define s2 where "s2 = s1\<lparr>p0_tok.parts := p0_tok.parts s1 @ [trim (currentPart s1)], currentPart := []\<rparr>"
  have t1: "p0_top s1" using "3.prems" by (simp add: s1_def)
  have t2: "p0_top s2" using t1 by (simp add: s2_def p0_top_def)
  have "p0_tok_loop prev st (join (e # e' # es))
          = p0_tok_loop (lastOr prev e) s1 (CHR '','' # join (e' # es))"
    using scan_element [of e st prev "CHR '','' # join (e' # es)"] "3.prems"
    by (simp add: s1_def)
  also have "\<dots> = p0_tok_loop (Some CHR '','') s2 (join (e' # es))"
    using step_comma_top [OF t1] by (simp add: s2_def)
  finally have eq: "p0_tok_loop prev st (join (e # e' # es))
          = p0_tok_loop (Some CHR '','') s2 (join (e' # es))" .
  have ih: "p0_tok.parts (p0_tok_loop (Some CHR '','') s2 (join (e' # es)))
        = p0_tok.parts s2 @ map trim (butlast ((currentPart s2 @ hd (e' # es)) # tl (e' # es)))
     \<and> currentPart (p0_tok_loop (Some CHR '','') s2 (join (e' # es)))
        = last ((currentPart s2 @ hd (e' # es)) # tl (e' # es))"
    using "3.prems" t2 by (intro "3.IH") auto
  show ?case
    unfolding eq using ih by (simp add: s2_def s1_def)
qed

lemma p0_split_elements:
  assumes "es \<noteq> []" "\<forall>e\<in>set es. element e"
  shows "p0_split (join es) = map trim (if trim (last es) = [] then butlast es else es)"
proof -
  have t: "p0_top p0_tok_init" by (simp add: p0_top_def p0_tok_init_def)
  have p: "p0_tok.parts (p0_tok_loop None p0_tok_init (join es)) = map trim (butlast es)"
    and c: "currentPart (p0_tok_loop None p0_tok_init (join es)) = last es"
    using scan_join [OF assms t, of None] assms(1) by (simp_all add: p0_tok_init_def)
  have "butlast es @ [last es] = es"
    using assms(1) by (rule append_butlast_last_id)
  then have "map trim es = map trim (butlast es @ [last es])"
    by (rule arg_cong [OF sym])
  then have e: "map trim es = map trim (butlast es) @ [trim (last es)]"
    by simp
  show ?thesis
    unfolding p0_split_def Let_def p c using e by simp
qed

lemma trim_parens: "trim (CHR ''('' # t @ '')'') = CHR ''('' # t @ '')''"
proof -
  have a: "\<not> is_space CHR ''(''" "\<not> is_space CHR '')''" by (simp_all add: is_space_def)
  have "dropWhile is_space (rev (t @ '')'')) = rev (t @ '')'')" using a(2) by simp
  then show ?thesis using trim_Cons [OF a(1), of "t @ '')''"] by (simp only: rev_rev_ident)
qed

lemma p0_cleanInput_parens: "p0_cleanInput (CHR ''('' # t @ '')'') = CHR ''('' # t @ '')''"
  unfolding p0_cleanInput_def trim_parens by (simp add: startsWith_def)

lemma p0_parseArgsData_parens:
  "p0_parseArgsData rt (CHR ''('' # t @ '')'') = Inr (JArr (map (p0_parsePart rt) (p0_split (trim t))))"
proof -
  have e: "endsWith (CHR ''('' # t @ '')'') '')''" by (simp add: endsWith_def)
  have s: "substring (CHR ''('' # t @ '')'') 1 (length (CHR ''('' # t @ '')'') - 1) = t"
    by (simp add: substring_def Let_def)
  show ?thesis
    unfolding p0_parseArgsData_def p0_cleanInput_parens Let_def s
    using e by (simp add: startsWith_def)
qed

lemma p0_tuple_elements:
  assumes "es \<noteq> []" "\<forall>e\<in>set es. element e" "trim (join es) = join es" "trim (last es) \<noteq> []"
  shows "p0_parseArgsData rt (CHR ''('' # join es @ '')'')
           = Inr (JArr (map (p0_parsePart rt) (map trim es)))"
  unfolding p0_parseArgsData_parens assms(3) p0_split_elements [OF assms(1,2)]
  using assms(4) by simp

text \<open>An instance: three elements, two of them groups that hold commas.\<close>

lemma element_atom: "\<forall>c\<in>set w. plain c \<Longrightarrow> element w"
  by (induction w) (auto intro: element.intros)

lemma nested_flat: "\<forall>c\<in>set w. plain c \<or> c = CHR '','' \<Longrightarrow> nested w"
  by (induction w) (auto intro: nested.intros)

lemma element_examples:
  "element ''0xab''" "element '' [1,2]''" "element '' {a:(b,c)}''"
proof -
  show "element ''0xab''" by (rule element_atom) (simp add: plain_def)
  have n1: "nested ''1,2''" by (rule nested_flat) (simp add: plain_def)
  have e1: "element (CHR ''['' # ''1,2'' @ CHR '']'' # [])"
    by (rule element_group [OF _ n1 element_Nil]) (simp add: brackets_def)
  have "element (CHR '' '' # CHR ''['' # ''1,2'' @ CHR '']'' # [])"
    by (rule element_plain [OF _ e1]) (simp add: plain_def)
  then show "element '' [1,2]''" by simp
  have n2: "nested ''b,c''" by (rule nested_flat) (simp add: plain_def)
  have n3: "nested (CHR ''('' # ''b,c'' @ CHR '')'' # [])"
    by (rule nested_group [OF _ n2 nested_Nil]) (simp add: brackets_def)
  have n4: "nested (CHR '':'' # CHR ''('' # ''b,c'' @ CHR '')'' # [])"
    by (rule nested_plain [OF _ n3]) (simp add: plain_def)
  have n5: "nested (CHR ''a'' # CHR '':'' # CHR ''('' # ''b,c'' @ CHR '')'' # [])"
    by (rule nested_plain [OF _ n4]) (simp add: plain_def)
  have e2: "element (CHR ''{'' # (CHR ''a'' # CHR '':'' # CHR ''('' # ''b,c'' @ CHR '')'' # [])
              @ CHR ''}'' # [])"
    by (rule element_group [OF _ n5 element_Nil]) (simp add: brackets_def)
  have "element (CHR '' '' # CHR ''{'' # (CHR ''a'' # CHR '':'' # CHR ''('' # ''b,c'' @ CHR '')'' # [])
              @ CHR ''}'' # [])"
    by (rule element_plain [OF _ e2]) (simp add: plain_def)
  then show "element '' {a:(b,c)}''" by simp
qed

lemma p0_tuple_example:
  "p0_parseArgsData rt ''(0xab, [1,2], {a:(b,c)})''
     = Inr (JArr (map (p0_parsePart rt) [''0xab'', ''[1,2]'', ''{a:(b,c)}'']))"
proof -
  have t: "trim (join [''0xab'', '' [1,2]'', '' {a:(b,c)}'']) = join [''0xab'', '' [1,2]'', '' {a:(b,c)}'']"
    "trim (last [''0xab'', '' [1,2]'', '' {a:(b,c)}'']) \<noteq> []"
    "map trim [''0xab'', '' [1,2]'', '' {a:(b,c)}''] = [''0xab'', ''[1,2]'', ''{a:(b,c)}'']"
    by code_simp+
  show ?thesis
    using p0_tuple_elements [of "[''0xab'', '' [1,2]'', '' {a:(b,c)}'']" rt] element_examples t
    by simp
qed

text \<open>
  Claim C1: in tuple form, parseArgsData splits the inner text at top-level commas only; a
  comma inside a quoted string, parentheses, braces or square brackets never ends an
  element, so a tuple of N top-level elements parses to N elements. The second file does
  so for elements whose quoted strings do not end in a backslash
  (\<open>p0_tuple_elements\<close>). The first file keeps no count of square brackets: the
  two-element tuple \<^verbatim>\<open>(0xab, [1,2])\<close> comes out as three elements there, and as two in
  the second file.
\<close>

theorem rvs_parseArgsData_splits_in_brackets:
  "rvs_parseArgsData demo_runtime ''(0xab, [1,2])''
     = Inr (JArr [JStr ''0xab'', JStr ''[1'', JStr ''2]''])
   \<and> p0_parseArgsData demo_runtime ''(0xab, [1,2])''
     = Inr (JArr [JStr ''0xab'', JStr ''[1,2]''])"
  by (simp add: rvs_parseArgsData_def rvs_cleanInput_def rvs_removePrefix_def str_defs
      rvs_split_def rvs_tok_step_def rvs_tok_init_def rvs_parsePart_def
      p0_parseArgsData_def p0_cleanInput_def p0_split_def p0_tok_step_def p0_tok_init_def
      p0_parsePart_def demo_runtime_def)

section \<open>Facts about extraction, the contract call and main\<close>

lemma submissions_append: "submissions (xs @ ys) = submissions xs @ submissions ys"
  by (induction xs rule: submissions.induct) auto

lemma p0_extract_requires:
  assumes "p0_extractDataFromArgs rt args = Inr d"
  shows "\<exists>xs. args = JArr xs \<and> 6 \<le> length xs
          \<and> (\<exists>a. xs ! 0 = JStr a \<and> isAddress rt a)
          \<and> truthy (parseIfString rt (xs ! 2)) \<and> typeof_object (parseIfString rt (xs ! 2))
          \<and> truthy (xs ! 3) \<and> truthy (xs ! 4) \<and> truthy (xs ! 5)"
  using assms
  by (auto simp: p0_extractDataFromArgs_def Let_def typeof_string_def split: jsval.splits if_splits)

lemma p0_extract_fields:
  assumes "p0_extractDataFromArgs rt (JArr xs) = Inr d"
  shows "d = \<lparr>attester = xs ! 0, merkleProof = (if truthy (xs ! 1) then xs ! 1 else JArr []),
               zkPassportData = parseIfString rt (xs ! 2),
               publicKeyG1 = xs ! 3, publicKeyG2 = xs ! 4, signature = xs ! 5\<rparr>"
  using assms
  by (auto simp: p0_extractDataFromArgs_def Let_def split: if_splits)

lemma p0_merkle_array:
  assumes "p0_extractDataFromArgs rt (JArr xs) = Inr d"
  shows "isArray (merkleProof d) \<and> (\<not> truthy (xs ! 1) \<longrightarrow> merkleProof d = JArr [])"
  using assms
  by (auto simp: p0_extractDataFromArgs_def Let_def isArray_def split: if_splits)

lemma rvs_extract_fields:
  assumes "rvs_extractDataFromArgs rt args = Inr d"
  shows "\<exists>a0 a1 a2 a3 a4 a5.
           js_index args 0 = Inr a0 \<and> js_index args 1 = Inr a1 \<and> js_index args 2 = Inr a2
         \<and> js_index args 3 = Inr a3 \<and> js_index args 4 = Inr a4 \<and> js_index args 5 = Inr a5
         \<and> d = \<lparr>attester = a0, merkleProof = (if truthy a1 then a1 else JArr []),
               zkPassportData = parseIfString rt a2,
               publicKeyG1 = a3, publicKeyG2 = a4, signature = a5\<rparr>"
  using assms
  by (auto simp: rvs_extractDataFromArgs_def Let_def split: sum.splits if_splits)

lemma rvs_submissions:
  "submissions (fst (rvs_callAddValidator lib rt w d)) =
     (case lib of EthersV5 \<Rightarrow> [(callParams d, 2400000)] | EthersV6 \<Rightarrow> [])"
  by (simp add: rvs_callAddValidator_def Let_def signed_divide_int_def
      split: ethers.splits sum.splits)

lemma rvs_submissions_cases:
  "submissions (fst (rvs_callAddValidator lib rt w d)) = []
   \<or> submissions (fst (rvs_callAddValidator lib rt w d)) = [(callParams d, 2400000)]"
  by (cases lib) (simp_all add: rvs_submissions)

lemma p0_submissions:
  "submissions (fst (p0_callAddValidator rt w d)) =
     [(callParams d, ((case estimateGas rt (callParams d) of Inr g \<Rightarrow> g | Inl _ \<Rightarrow> 2000000) * 120) sdiv 100)]"
  by (simp add: p0_callAddValidator_def Let_def split: sum.splits)

lemma sdiv_nonneg: "0 \<le> (g::int) \<Longrightarrow> (g * 120) sdiv 100 = g * 120 div 100"
  by (simp add: signed_divide_int_def sgn_if)

lemma rvs_main_events:
  "fst (rvs_main lib rt l1 l2 l3) =
     fst (rvs_main_try lib rt l1 l2 l3) @
       (case snd (rvs_main_try lib rt l1 l2 l3) of
          Inl e \<Rightarrow> [Print (Failed e), Print Troubleshooting] | Inr _ \<Rightarrow> [])"
  by (simp add: rvs_main_def case_prod_beta split: sum.splits)

lemma p0_main_events:
  "fst (p0_main rt l1 l2 l3) =
     fst (p0_main_try rt l1 l2 l3) @
       (case snd (p0_main_try rt l1 l2 l3) of
          Inl e \<Rightarrow> [Print (Failed e), Print Troubleshooting] | Inr _ \<Rightarrow> [])"
  by (simp add: p0_main_def case_prod_beta split: sum.splits)



lemma rvs_try_submissions:
  "submissions (fst (rvs_main_try lib rt l1 l2 l3)) = [] \<or>
     (\<exists>address args d.
        Wallet rt (getUserInput l1) = Inr address
      \<and> rvs_parseArgsData rt (getUserInput l2) = Inr args
      \<and> rvs_extractDataFromArgs rt args = Inr d
      \<and> submissions (fst (rvs_main_try lib rt l1 l2 l3)) = submissions (fst (rvs_callAddValidator lib rt address d)))"
  by (simp add: rvs_main_try_def Let_def case_prod_beta submissions_append split: sum.splits)

lemma p0_try_submissions:
  "submissions (fst (p0_main_try rt l1 l2 l3)) = [] \<or>
     (\<exists>address args d.
        Wallet rt (getUserInput l1) = Inr address
      \<and> p0_parseArgsData rt (getUserInput l2) = Inr args
      \<and> p0_extractDataFromArgs rt args = Inr d
      \<and> submissions (fst (p0_main_try rt l1 l2 l3)) = submissions (fst (p0_callAddValidator rt address d)))"
  by (simp add: p0_main_try_def Let_def case_prod_beta submissions_append split: sum.splits)

lemma rvs_main_submissions:
  "submissions (fst (rvs_main lib rt l1 l2 l3)) = submissions (fst (rvs_main_try lib rt l1 l2 l3))"
  by (simp add: rvs_main_events submissions_append split: sum.splits)

lemma p0_main_submissions:
  "submissions (fst (p0_main rt l1 l2 l3)) = submissions (fst (p0_main_try rt l1 l2 l3))"
  by (simp add: p0_main_events submissions_append split: sum.splits)

lemma takeWhile_app_in: "x \<in> set (takeWhile P xs) \<Longrightarrow> x \<in> set (takeWhile P (xs @ ys))"
  by (induction xs) auto

lemma rvs_try_before:
  "submissions (fst (rvs_main_try lib rt l1 l2 l3)) \<noteq> [] \<Longrightarrow>
     Print DataExtracted \<in> set (takeWhile (\<lambda>ev. \<not> isSubmission ev) (fst (rvs_main_try lib rt l1 l2 l3)))"
  by (simp add: rvs_main_try_def Let_def case_prod_beta submissions_append isSubmission_def split: sum.splits if_splits)

lemma p0_try_before:
  "submissions (fst (p0_main_try rt l1 l2 l3)) \<noteq> [] \<Longrightarrow>
     Print DataExtracted \<in> set (takeWhile (\<lambda>ev. \<not> isSubmission ev) (fst (p0_main_try rt l1 l2 l3)))"
  by (simp add: p0_main_try_def Let_def case_prod_beta submissions_append isSubmission_def split: sum.splits if_splits)

lemma lower_y: "toLowerCase s = ''y'' \<longleftrightarrow> s = ''y'' \<or> s = ''Y''"
proof
  assume a: "toLowerCase s = ''y''"
  then obtain c where s: "s = [c]" by (cases s) (auto simp: toLowerCase_def)
  show "s = ''y'' \<or> s = ''Y''"
  proof (cases "(65 \<le> (of_char c :: nat) \<and> (of_char c :: nat) \<le> 90) \<or> (192 \<le> (of_char c :: nat) \<and> (of_char c :: nat) \<le> 222 \<and> (of_char c :: nat) \<noteq> 215)")
    case True
    with a s have "char_of ((of_char c :: nat) + 32) = CHR ''y''"
      by (simp add: toLowerCase_def Let_def)
    then have "of_char (char_of ((of_char c :: nat) + 32) :: char) = (of_char (CHR ''y'') :: nat)" by simp
    then have "((of_char c :: nat) + 32) mod 256 = 121" by (simp add: of_char_of)
    with True have "(of_char c :: nat) = 89" by auto
    then have "(of_char c :: nat) = of_char (CHR ''Y'')" by simp
    then have "c = CHR ''Y''" by (simp only: of_char_eq_iff)
    then show ?thesis using s by simp
  next
    case False
    with a s show ?thesis by (auto simp: toLowerCase_def Let_def)
  qed
next
  assume "s = ''y'' \<or> s = ''Y''"
  moreover have "toLowerCase ''y'' = ''y''" "toLowerCase ''Y'' = ''y''" by code_simp+
  ultimately show "toLowerCase s = ''y''" by auto
qed












lemma rvs_try_mismatch:
  assumes "getUserInput l1 \<noteq> []" "Wallet rt (getUserInput l1) = Inr address"
     "getUserInput l2 \<noteq> []" "rvs_parseArgsData rt (getUserInput l2) = Inr args"
     "rvs_extractDataFromArgs rt args = Inr d" "attester d = JStr a"
     "toLowerCase address \<noteq> toLowerCase a"
  shows "rvs_main_try lib rt l1 l2 l3 =
     (let ev = [Question ''privateKey'', Print (WalletCreated address), Question ''args'',
                Print DataExtracted, Print AddressMismatch, Question ''proceed'']
      in if toLowerCase (getUserInput l3) \<noteq> ''y'' then (ev @ [Print Cancelled], Inr ())
         else (case rvs_callAddValidator lib rt address d of
                 (evs, Inl e) \<Rightarrow> (ev @ evs, Inl e)
               | (evs, Inr r) \<Rightarrow> (ev @ evs @ [Print (Success r)], Inr ())))"
  using assms by (simp add: rvs_main_try_def Let_def js_toLowerCase_def)

lemma p0_try_mismatch:
  assumes "getUserInput l1 \<noteq> []" "Wallet rt (getUserInput l1) = Inr address"
     "p0_parseArgsData rt (getUserInput l2) = Inr args"
     "p0_extractDataFromArgs rt args = Inr d" "attester d = JStr a"
     "toLowerCase address \<noteq> toLowerCase a"
  shows "p0_main_try rt l1 l2 l3 =
     (let ev = [Question ''privateKey'', Print (WalletCreated address), Question ''args'',
                Print DataExtracted, Print AddressMismatch, Question ''proceed'']
      in if toLowerCase (getUserInput l3) \<noteq> ''y'' then (ev @ [Print Cancelled], Inr ())
         else (case p0_callAddValidator rt address d of
                 (evs, Inl e) \<Rightarrow> (ev @ evs, Inl e)
               | (evs, Inr r) \<Rightarrow> (ev @ evs @ [Print (Success r)], Inr ())))"
  using assms by (simp add: p0_main_try_def Let_def js_toLowerCase_def)

lemma rvs_mismatch_run:
  assumes "getUserInput l1 \<noteq> []" "Wallet rt (getUserInput l1) = Inr address"
     "getUserInput l2 \<noteq> []" "rvs_parseArgsData rt (getUserInput l2) = Inr args"
     "rvs_extractDataFromArgs rt args = Inr d" "attester d = JStr a"
     "toLowerCase address \<noteq> toLowerCase a"
  shows "(submissions (fst (rvs_main lib rt l1 l2 l3)) \<noteq> [] \<longrightarrow>
            getUserInput l3 = ''y'' \<or> getUserInput l3 = ''Y'')
       \<and> (getUserInput l3 \<noteq> ''y'' \<and> getUserInput l3 \<noteq> ''Y'' \<longrightarrow>
            submissions (fst (rvs_main lib rt l1 l2 l3)) = []
          \<and> last (fst (rvs_main lib rt l1 l2 l3)) = Print Cancelled
          \<and> snd (rvs_main lib rt l1 l2 l3) = Resolved)
       \<and> (lib = EthersV5 \<and> (getUserInput l3 = ''y'' \<or> getUserInput l3 = ''Y'') \<longrightarrow>
            submissions (fst (rvs_main lib rt l1 l2 l3)) \<noteq> [])"
proof -
  have y: "(getUserInput l3 = ''y'' \<or> getUserInput l3 = ''Y'') = (toLowerCase (getUserInput l3) = ''y'')"
    by (simp add: lower_y)
  show ?thesis
    unfolding rvs_main_def rvs_try_mismatch [OF assms] y de_Morgan_disj [symmetric]
    by (simp add: Let_def case_prod_beta submissions_append rvs_submissions
        split: sum.splits ethers.splits)
qed

lemma p0_mismatch_run:
  assumes "getUserInput l1 \<noteq> []" "Wallet rt (getUserInput l1) = Inr address"
     "p0_parseArgsData rt (getUserInput l2) = Inr args"
     "p0_extractDataFromArgs rt args = Inr d" "attester d = JStr a"
     "toLowerCase address \<noteq> toLowerCase a"
  shows "if getUserInput l3 = ''y'' \<or> getUserInput l3 = ''Y''
         then submissions (fst (p0_main rt l1 l2 l3)) \<noteq> []
         else submissions (fst (p0_main rt l1 l2 l3)) = []
              \<and> last (fst (p0_main rt l1 l2 l3)) = Print Cancelled
              \<and> snd (p0_main rt l1 l2 l3) = Resolved"
  unfolding p0_main_def p0_try_mismatch [OF assms] lower_y [symmetric]
  by (simp add: Let_def case_prod_beta submissions_append p0_submissions split: sum.splits)

section \<open>One submission, after parsing and extraction\<close>

text \<open>
  Claim C7: in every invocation of main at most one transaction is submitted, and a
  submission occurs only after parseArgsData and extractDataFromArgs have both completed
  without error on the pasted input. In both files the run holds at most one contract
  call; when it holds one, parsing and extraction of the trimmed second line succeeded
  and the line printed after extraction precedes the call.
\<close>

theorem main_submits_at_most_once:
  "length (submissions (fst (rvs_main lib rt l1 l2 l3))) \<le> 1
   \<and> (submissions (fst (rvs_main lib rt l1 l2 l3)) \<noteq> [] \<longrightarrow>
        (\<exists>args d. rvs_parseArgsData rt (getUserInput l2) = Inr args
                 \<and> rvs_extractDataFromArgs rt args = Inr d)
        \<and> Print DataExtracted \<in> set (takeWhile (\<lambda>ev. \<not> isSubmission ev) (fst (rvs_main lib rt l1 l2 l3))))
   \<and> length (submissions (fst (p0_main rt l1 l2 l3))) \<le> 1
   \<and> (submissions (fst (p0_main rt l1 l2 l3)) \<noteq> [] \<longrightarrow>
        (\<exists>args d. p0_parseArgsData rt (getUserInput l2) = Inr args
                 \<and> p0_extractDataFromArgs rt args = Inr d)
        \<and> Print DataExtracted \<in> set (takeWhile (\<lambda>ev. \<not> isSubmission ev) (fst (p0_main rt l1 l2 l3))))"
proof -
  have r1: "length (submissions (fst (rvs_main lib rt l1 l2 l3))) \<le> 1"
  proof (cases "submissions (fst (rvs_main_try lib rt l1 l2 l3)) = []")
    case True
    then show ?thesis by (simp add: rvs_main_submissions)
  next
    case False
    then obtain address d where
      "submissions (fst (rvs_main_try lib rt l1 l2 l3))
         = submissions (fst (rvs_callAddValidator lib rt address d))"
      using rvs_try_submissions [of lib rt l1 l2 l3] by auto
    then show ?thesis
      using rvs_submissions_cases [of lib rt address d] by (auto simp: rvs_main_submissions)
  qed
  have p1: "length (submissions (fst (p0_main rt l1 l2 l3))) \<le> 1"
    using p0_try_submissions [of rt l1 l2 l3]
    by (auto simp: p0_main_submissions p0_submissions)
  have r2: "\<exists>args d. rvs_parseArgsData rt (getUserInput l2) = Inr args
                 \<and> rvs_extractDataFromArgs rt args = Inr d"
    if "submissions (fst (rvs_main lib rt l1 l2 l3)) \<noteq> []"
    using that rvs_try_submissions [of lib rt l1 l2 l3] by (auto simp: rvs_main_submissions)
  have p2: "\<exists>args d. p0_parseArgsData rt (getUserInput l2) = Inr args
                 \<and> p0_extractDataFromArgs rt args = Inr d"
    if "submissions (fst (p0_main rt l1 l2 l3)) \<noteq> []"
    using that p0_try_submissions [of rt l1 l2 l3] by (auto simp: p0_main_submissions)
  have r3: "Print DataExtracted \<in> set (takeWhile (\<lambda>ev. \<not> isSubmission ev) (fst (rvs_main lib rt l1 l2 l3)))"
    if "submissions (fst (rvs_main lib rt l1 l2 l3)) \<noteq> []"
  proof -
    from that have "submissions (fst (rvs_main_try lib rt l1 l2 l3)) \<noteq> []"
      by (simp add: rvs_main_submissions)
    then have "Print DataExtracted
        \<in> set (takeWhile (\<lambda>ev. \<not> isSubmission ev) (fst (rvs_main_try lib rt l1 l2 l3)))"
      by (rule rvs_try_before)
    then show ?thesis
      by (simp add: rvs_main_events takeWhile_app_in)
  qed
  have p3: "Print DataExtracted \<in> set (takeWhile (\<lambda>ev. \<not> isSubmission ev) (fst (p0_main rt l1 l2 l3)))"
    if "submissions (fst (p0_main rt l1 l2 l3)) \<noteq> []"
  proof -
    from that have "submissions (fst (p0_main_try rt l1 l2 l3)) \<noteq> []"
      by (simp add: p0_main_submissions)
    then have "Print DataExtracted
        \<in> set (takeWhile (\<lambda>ev. \<not> isSubmission ev) (fst (p0_main_try rt l1 l2 l3)))"
      by (rule p0_try_before)
    then show ?thesis
      by (simp add: p0_main_events takeWhile_app_in)
  qed
  show ?thesis using r1 r2 r3 p1 p2 p3 by blast
qed

section \<open>Concrete runs\<close>

lemma demo_lines:
  "getUserInput ''key'' = ''key''" "getUserInput ''hello'' = ''hello''"
  "getUserInput demo_args = demo_args"
  "getUserInput ''(0xAB, [], 7)'' = ''(0xAB, [], 7)''"
  "getUserInput '''' = ''''"
  "getUserInput ''n'' = ''n''" "getUserInput '' Y '' = ''Y''"
  by code_simp+




lemma demo_run:
  "fst (rvs_main EthersV5 demo_runtime ''key'' demo_args '''') =
     [Question ''privateKey'', Print (WalletCreated ''0xAB''), Question ''args'',
      Print DataExtracted,
      SendTransaction [JStr ''0xAB'', JArr [], JObj [], JStr ''g1'', JStr ''g2'', JStr ''sig''] 2400000,
      WaitForReceipt ''0xhash'',
      Print (Success \<lparr>transactionHash = ''0xhash'', blockNumber = 7, gasUsed = 90000\<rparr>)]"
  "fst (p0_main demo_runtime ''key'' demo_args '''') =
     [Question ''privateKey'', Print (WalletCreated ''0xAB''), Question ''args'',
      Print DataExtracted,
      EstimateGas [JStr ''0xAB'', JArr [], JObj [], JStr ''g1'', JStr ''g2'', JStr ''sig''],
      SendTransaction [JStr ''0xAB'', JArr [], JObj [], JStr ''g1'', JStr ''g2'', JStr ''sig''] 120000,
      WaitForReceipt ''0xhash'',
      Print (Success \<lparr>transactionHash = ''0xhash'', blockNumber = 7, gasUsed = 90000\<rparr>)]"
  by code_simp+



lemma demo_wallets:
  "Wallet demo_runtime k = Inr ''0xAB''"
  "Wallet demo_runtime_no_funds k = Inr ''0xAB''"
  "Wallet demo_runtime_bad_key k = Inl (LibraryError ''invalid private key'')"
  by (simp_all add: demo_runtime_def demo_runtime_no_funds_def demo_runtime_bad_key_def)



lemma demo_estimates:
  "estimateGas demo_runtime ps = Inr 100000"
  "estimateGas demo_runtime_no_estimate ps = Inl (LibraryError ''execution reverted'')"
  by (simp_all add: demo_runtime_def demo_runtime_no_estimate_def)

theorem main_submits_at_most_once_witness:
  "submissions (fst (rvs_main EthersV5 demo_runtime ''key'' demo_args '''')) \<noteq> []
   \<and> (\<exists>args d. rvs_parseArgsData demo_runtime (getUserInput demo_args) = Inr args
                 \<and> rvs_extractDataFromArgs demo_runtime args = Inr d)
   \<and> submissions (fst (p0_main demo_runtime ''key'' demo_args '''')) \<noteq> []
   \<and> (\<exists>args d. p0_parseArgsData demo_runtime (getUserInput demo_args) = Inr args
                 \<and> p0_extractDataFromArgs demo_runtime args = Inr d)"
  using main_submits_at_most_once [of EthersV5 demo_runtime "''key''" demo_args "''''"]
  by (simp add: demo_run)

section \<open>The gas limit\<close>

text \<open>
  The second file makes exactly one contract call; its gas limit is 2,400,000 after a
  failed estimate and \<open>g * 120 sdiv 100\<close> after an estimate \<open>g\<close>, which is
  \<open>g * 120 div 100\<close> for \<open>g \<ge> 0\<close>.
\<close>

lemma p0_gas_limit_with_buffer:
  "(\<forall>e. estimateGas rt (callParams d) = Inl e \<longrightarrow>
        map snd (submissions (fst (p0_callAddValidator rt w d))) = [2400000])
   \<and> (\<forall>g. estimateGas rt (callParams d) = Inr g \<longrightarrow>
        map snd (submissions (fst (p0_callAddValidator rt w d))) = [(g * 120) sdiv 100]
      \<and> (0 \<le> g \<longrightarrow> (g * 120) sdiv 100 = g * 120 div 100))"
  by (simp add: p0_submissions sdiv_nonneg)

text \<open>
  The first file never computes a gas limit from an estimate: under version 6 of the
  library it throws before the contract call, whether the estimate succeeded or failed,
  and under version 5 it never obtains an estimate and always submits with 2,400,000.
\<close>

lemma rvs_callAddValidator_v6:
  "rvs_callAddValidator EthersV6 rt w d = ([EstimateGas (callParams d)], Inl JsTypeError)"
  by (simp add: rvs_callAddValidator_def split: sum.splits)

lemma rvs_callAddValidator_v5:
  "map snd (submissions (fst (rvs_callAddValidator EthersV5 rt w d))) = [2400000]"
  by (simp add: rvs_submissions)

text \<open>
  Claim C6: when the RPC gas estimate fails, callAddValidator does not abort but takes
  2,000,000 as the estimate, and in every case the transaction is submitted with the
  estimate times 120 integer-divided by 100 as its gas limit. In the first file under
  version 6 of the library a failed estimate ends in a TypeError and no contract call
  (\<^verbatim>\<open>ethers.BigNumber\<close> is undefined), and so does an estimate of 100000
  (\<^verbatim>\<open>gasEstimate.mul\<close> is no function); under version 5 the estimate of 100000 is never
  read and the call goes out with 2,400,000. The second file submits with 2,400,000
  after the failed estimate and with 120,000 after the estimate of 100000.
\<close>

theorem rvs_callAddValidator_never_buffers_an_estimate:
  "estimateGas demo_runtime_no_estimate (callParams demo_extracted)
     = Inl (LibraryError ''execution reverted'')
   \<and> rvs_callAddValidator EthersV6 demo_runtime_no_estimate ''0xAB'' demo_extracted
     = ([EstimateGas (callParams demo_extracted)], Inl JsTypeError)
   \<and> submissions (fst (rvs_callAddValidator EthersV6 demo_runtime_no_estimate ''0xAB'' demo_extracted))
     = []
   \<and> estimateGas demo_runtime (callParams demo_extracted) = Inr 100000
   \<and> rvs_callAddValidator EthersV6 demo_runtime ''0xAB'' demo_extracted
     = ([EstimateGas (callParams demo_extracted)], Inl JsTypeError)
   \<and> map snd (submissions (fst (rvs_callAddValidator EthersV5 demo_runtime ''0xAB'' demo_extracted)))
     = [2400000]
   \<and> map snd (submissions (fst (p0_callAddValidator demo_runtime_no_estimate ''0xAB'' demo_extracted)))
     = [2400000]
   \<and> map snd (submissions (fst (p0_callAddValidator demo_runtime ''0xAB'' demo_extracted)))
     = [120000]"
  by (simp add: rvs_callAddValidator_v6 rvs_callAddValidator_v5 p0_submissions demo_estimates)

section \<open>The parameters of the call\<close>

text \<open>
  Claim C5: the six parameters submitted to the contract are taken from positions 0 to 5
  of the parsed argument array and passed to addValidator in that order: attester, merkle
  proof, proof-verification params, G1 key, G2 key, signature. In both files, whenever
  main makes the contract call, its parameter list is the argument at position 0, the
  argument at position 1 (the empty array when that is falsy), the argument at position 2
  (JSON-parsed when it is a string that parses), and the arguments at positions 3, 4, 5.
\<close>

theorem parameters_in_argument_order:
  "(submissions (fst (rvs_main lib rt l1 l2 l3)) \<noteq> [] \<longrightarrow>
      (\<exists>args a0 a1 a2 a3 a4 a5.
          rvs_parseArgsData rt (getUserInput l2) = Inr args
        \<and> js_index args 0 = Inr a0 \<and> js_index args 1 = Inr a1 \<and> js_index args 2 = Inr a2
        \<and> js_index args 3 = Inr a3 \<and> js_index args 4 = Inr a4 \<and> js_index args 5 = Inr a5
        \<and> map fst (submissions (fst (rvs_main lib rt l1 l2 l3)))
            = [[a0, if truthy a1 then a1 else JArr [], parseIfString rt a2, a3, a4, a5]]))
   \<and> (submissions (fst (p0_main rt l1 l2 l3)) \<noteq> [] \<longrightarrow>
      (\<exists>xs. p0_parseArgsData rt (getUserInput l2) = Inr (JArr xs) \<and> 6 \<le> length xs
        \<and> map fst (submissions (fst (p0_main rt l1 l2 l3)))
            = [[xs ! 0, if truthy (xs ! 1) then xs ! 1 else JArr [], parseIfString rt (xs ! 2),
                xs ! 3, xs ! 4, xs ! 5]]))"
proof (intro conjI impI)
  assume a: "submissions (fst (rvs_main lib rt l1 l2 l3)) \<noteq> []"
  then obtain address args d where
    p: "rvs_parseArgsData rt (getUserInput l2) = Inr args"
    and x: "rvs_extractDataFromArgs rt args = Inr d"
    and s: "submissions (fst (rvs_main lib rt l1 l2 l3))
              = submissions (fst (rvs_callAddValidator lib rt address d))"
    using rvs_try_submissions [of lib rt l1 l2 l3] by (auto simp: rvs_main_submissions)
  from rvs_extract_fields [OF x] obtain a0 a1 a2 a3 a4 a5 where
    i: "js_index args 0 = Inr a0" "js_index args 1 = Inr a1" "js_index args 2 = Inr a2"
       "js_index args 3 = Inr a3" "js_index args 4 = Inr a4" "js_index args 5 = Inr a5"
    and d: "d = \<lparr>attester = a0, merkleProof = (if truthy a1 then a1 else JArr []),
               zkPassportData = parseIfString rt a2,
               publicKeyG1 = a3, publicKeyG2 = a4, signature = a5\<rparr>"
    by blast
  have ne: "submissions (fst (rvs_callAddValidator lib rt address d)) \<noteq> []"
    using a s by simp
  have h: "map fst (submissions (fst (rvs_main lib rt l1 l2 l3)))
            = [[a0, if truthy a1 then a1 else JArr [], parseIfString rt a2, a3, a4, a5]]"
    using ne s by (cases lib) (simp_all add: rvs_submissions callParams_def d)
  show "\<exists>args a0 a1 a2 a3 a4 a5.
          rvs_parseArgsData rt (getUserInput l2) = Inr args
        \<and> js_index args 0 = Inr a0 \<and> js_index args 1 = Inr a1 \<and> js_index args 2 = Inr a2
        \<and> js_index args 3 = Inr a3 \<and> js_index args 4 = Inr a4 \<and> js_index args 5 = Inr a5
        \<and> map fst (submissions (fst (rvs_main lib rt l1 l2 l3)))
            = [[a0, if truthy a1 then a1 else JArr [], parseIfString rt a2, a3, a4, a5]]"
    by (rule exI [of _ args], rule exI [of _ a0], rule exI [of _ a1], rule exI [of _ a2],
        rule exI [of _ a3], rule exI [of _ a4], rule exI [of _ a5]) (use p i h in simp)
next
  assume a: "submissions (fst (p0_main rt l1 l2 l3)) \<noteq> []"
  then obtain address args d where
    p: "p0_parseArgsData rt (getUserInput l2) = Inr args"
    and x: "p0_extractDataFromArgs rt args = Inr d"
    and s: "submissions (fst (p0_main rt l1 l2 l3))
              = submissions (fst (p0_callAddValidator rt address d))"
    using p0_try_submissions [of rt l1 l2 l3] by (auto simp: p0_main_submissions)
  from p0_extract_requires [OF x] obtain xs where xs: "args = JArr xs" "6 \<le> length xs"
    by blast
  have d: "d = \<lparr>attester = xs ! 0, merkleProof = (if truthy (xs ! 1) then xs ! 1 else JArr []),
               zkPassportData = parseIfString rt (xs ! 2),
               publicKeyG1 = xs ! 3, publicKeyG2 = xs ! 4, signature = xs ! 5\<rparr>"
    using x unfolding xs by (rule p0_extract_fields)
  have h: "map fst (submissions (fst (p0_main rt l1 l2 l3)))
            = [[xs ! 0, if truthy (xs ! 1) then xs ! 1 else JArr [], parseIfString rt (xs ! 2),
                xs ! 3, xs ! 4, xs ! 5]]"
    by (simp add: s p0_submissions callParams_def d)
  show "\<exists>xs. p0_parseArgsData rt (getUserInput l2) = Inr (JArr xs) \<and> 6 \<le> length xs
        \<and> map fst (submissions (fst (p0_main rt l1 l2 l3)))
            = [[xs ! 0, if truthy (xs ! 1) then xs ! 1 else JArr [], parseIfString rt (xs ! 2),
                xs ! 3, xs ! 4, xs ! 5]]"
    by (rule exI [of _ xs]) (use p xs h in simp)
qed

theorem parameters_in_argument_order_witness:
  "submissions (fst (rvs_main EthersV5 demo_runtime ''key'' demo_args '''')) \<noteq> []
   \<and> map fst (submissions (fst (rvs_main EthersV5 demo_runtime ''key'' demo_args '''')))
       = [[JStr ''0xAB'', JArr [], JObj [], JStr ''g1'', JStr ''g2'', JStr ''sig'']]
   \<and> submissions (fst (p0_main demo_runtime ''key'' demo_args '''')) \<noteq> []
   \<and> map fst (submissions (fst (p0_main demo_runtime ''key'' demo_args '''')))
       = [[JStr ''0xAB'', JArr [], JObj [], JStr ''g1'', JStr ''g2'', JStr ''sig'']]"
  using parameters_in_argument_order [of EthersV5 demo_runtime "''key''" demo_args "''''"]
  by (simp add: demo_run)

section \<open>Errors end in a report\<close>



lemma demo_other:
  "getUserInput demo_args_other = demo_args_other"
  "demo_args_other \<noteq> []"
  "rvs_parseArgsData demo_runtime demo_args_other
     = Inr (JArr [JStr ''0xCD'', JArr [], JObj [], JStr ''g1'', JStr ''g2'', JStr ''sig''])"
  "p0_parseArgsData demo_runtime demo_args_other
     = Inr (JArr [JStr ''0xCD'', JArr [], JObj [], JStr ''g1'', JStr ''g2'', JStr ''sig''])"
  "rvs_extractDataFromArgs demo_runtime
     (JArr [JStr ''0xCD'', JArr [], JObj [], JStr ''g1'', JStr ''g2'', JStr ''sig''])
     = Inr demo_extracted_other"
  "p0_extractDataFromArgs demo_runtime
     (JArr [JStr ''0xCD'', JArr [], JObj [], JStr ''g1'', JStr ''g2'', JStr ''sig''])
     = Inr demo_extracted_other"
  "attester demo_extracted_other = JStr ''0xCD''"
  "toLowerCase ''0xAB'' \<noteq> toLowerCase ''0xCD''"
  by code_simp+

section \<open>The confirmation question\<close>

text \<open>
  Claim C9: in every run in which the wallet address differs, ignoring case, from the
  extracted attester address, main submits a transaction only if the user answers the
  confirmation question with y (in either case); for any other answer nothing is
  submitted and the run ends as cancelled. The answer is the line as \<^verbatim>\<open>getUserInput\<close>
  returns it, trimmed. In both files such a run makes the contract call only when that
  answer is \<^verbatim>\<open>y\<close> or \<^verbatim>\<open>Y\<close>, and otherwise ends, resolved, with the cancellation line
  and no call. With that answer the second file always makes the call, and the first
  file makes it under version 5 of the library.
\<close>

theorem mismatch_needs_confirmation:
  "(getUserInput l1 \<noteq> [] \<and> getUserInput l2 \<noteq> []
      \<and> Wallet rt (getUserInput l1) = Inr address
      \<and> rvs_parseArgsData rt (getUserInput l2) = Inr args
      \<and> rvs_extractDataFromArgs rt args = Inr d
      \<and> attester d = JStr a \<and> toLowerCase address \<noteq> toLowerCase a
    \<longrightarrow> (submissions (fst (rvs_main lib rt l1 l2 l3)) \<noteq> [] \<longrightarrow>
            getUserInput l3 = ''y'' \<or> getUserInput l3 = ''Y'')
       \<and> (getUserInput l3 \<noteq> ''y'' \<and> getUserInput l3 \<noteq> ''Y'' \<longrightarrow>
            submissions (fst (rvs_main lib rt l1 l2 l3)) = []
          \<and> last (fst (rvs_main lib rt l1 l2 l3)) = Print Cancelled
          \<and> snd (rvs_main lib rt l1 l2 l3) = Resolved)
       \<and> (lib = EthersV5 \<and> (getUserInput l3 = ''y'' \<or> getUserInput l3 = ''Y'') \<longrightarrow>
            submissions (fst (rvs_main lib rt l1 l2 l3)) \<noteq> []))
   \<and> (getUserInput l1 \<noteq> []
      \<and> Wallet rt (getUserInput l1) = Inr address
      \<and> p0_parseArgsData rt (getUserInput l2) = Inr args'
      \<and> p0_extractDataFromArgs rt args' = Inr d'
      \<and> attester d' = JStr a' \<and> toLowerCase address \<noteq> toLowerCase a'
    \<longrightarrow> (if getUserInput l3 = ''y'' \<or> getUserInput l3 = ''Y''
         then submissions (fst (p0_main rt l1 l2 l3)) \<noteq> []
         else submissions (fst (p0_main rt l1 l2 l3)) = []
              \<and> last (fst (p0_main rt l1 l2 l3)) = Print Cancelled
              \<and> snd (p0_main rt l1 l2 l3) = Resolved))"
  using rvs_mismatch_run [where ?l1.0 = l1 and rt = rt and address = address and ?l2.0 = l2
          and args = args and d = d and a = a and lib = lib and ?l3.0 = l3]
        p0_mismatch_run [of l1 rt address l2 args' d' a' l3]
  by blast

theorem mismatch_needs_confirmation_witness:
  "getUserInput ''key'' \<noteq> [] \<and> getUserInput demo_args_other \<noteq> []
   \<and> Wallet demo_runtime (getUserInput ''key'') = Inr ''0xAB''
   \<and> rvs_parseArgsData demo_runtime (getUserInput demo_args_other)
       = Inr (JArr [JStr ''0xCD'', JArr [], JObj [], JStr ''g1'', JStr ''g2'', JStr ''sig''])
   \<and> p0_parseArgsData demo_runtime (getUserInput demo_args_other)
       = Inr (JArr [JStr ''0xCD'', JArr [], JObj [], JStr ''g1'', JStr ''g2'', JStr ''sig''])
   \<and> rvs_extractDataFromArgs demo_runtime
        (JArr [JStr ''0xCD'', JArr [], JObj [], JStr ''g1'', JStr ''g2'', JStr ''sig''])
       = Inr demo_extracted_other
   \<and> p0_extractDataFromArgs demo_runtime
        (JArr [JStr ''0xCD'', JArr [], JObj [], JStr ''g1'', JStr ''g2'', JStr ''sig''])
       = Inr demo_extracted_other
   \<and> attester demo_extracted_other = JStr ''0xCD''
   \<and> toLowerCase ''0xAB'' \<noteq> toLowerCase ''0xCD''
   \<and> getUserInput '' Y '' = ''Y''
   \<and> submissions (fst (rvs_main EthersV5 demo_runtime ''key'' demo_args_other '' Y '')) \<noteq> []
   \<and> submissions (fst (p0_main demo_runtime ''key'' demo_args_other '' Y '')) \<noteq> []
   \<and> getUserInput ''n'' = ''n''
   \<and> submissions (fst (rvs_main EthersV5 demo_runtime ''key'' demo_args_other ''n'')) = []
   \<and> last (fst (rvs_main EthersV5 demo_runtime ''key'' demo_args_other ''n'')) = Print Cancelled
   \<and> submissions (fst (rvs_main EthersV6 demo_runtime ''key'' demo_args_other ''n'')) = []
   \<and> last (fst (rvs_main EthersV6 demo_runtime ''key'' demo_args_other ''n'')) = Print Cancelled
   \<and> submissions (fst (p0_main demo_runtime ''key'' demo_args_other ''n'')) = []
   \<and> last (fst (p0_main demo_runtime ''key'' demo_args_other ''n'')) = Print Cancelled"
  using
    mismatch_needs_confirmation [where ?l1.0 = "''key''" and ?l2.0 = demo_args_other
      and rt = demo_runtime and address = "''0xAB''"
      and args = "JArr [JStr ''0xCD'', JArr [], JObj [], JStr ''g1'', JStr ''g2'', JStr ''sig'']"
      and d = demo_extracted_other and a = "''0xCD''" and lib = EthersV5 and ?l3.0 = "'' Y ''"
      and args' = "JArr [JStr ''0xCD'', JArr [], JObj [], JStr ''g1'', JStr ''g2'', JStr ''sig'']"
      and d' = demo_extracted_other and a' = "''0xCD''"]
    mismatch_needs_confirmation [where ?l1.0 = "''key''" and ?l2.0 = demo_args_other
      and rt = demo_runtime and address = "''0xAB''"
      and args = "JArr [JStr ''0xCD'', JArr [], JObj [], JStr ''g1'', JStr ''g2'', JStr ''sig'']"
      and d = demo_extracted_other and a = "''0xCD''" and lib = EthersV5 and ?l3.0 = "''n''"
      and args' = "JArr [JStr ''0xCD'', JArr [], JObj [], JStr ''g1'', JStr ''g2'', JStr ''sig'']"
      and d' = demo_extracted_other and a' = "''0xCD''"]
    mismatch_needs_confirmation [where ?l1.0 = "''key''" and ?l2.0 = demo_args_other
      and rt = demo_runtime and address = "''0xAB''"
      and args = "JArr [JStr ''0xCD'', JArr [], JObj [], JStr ''g1'', JStr ''g2'', JStr ''sig'']"
      and d = demo_extracted_other and a = "''0xCD''" and lib = EthersV6 and ?l3.0 = "''n''"
      and args' = "JArr [JStr ''0xCD'', JArr [], JObj [], JStr ''g1'', JStr ''g2'', JStr ''sig'']"
      and d' = demo_extracted_other and a' = "''0xCD''"]
  by (simp add: demo_lines demo_wallets demo_other)

section \<open>The two input formats\<close>

text \<open>
  The first file cleans every input as the spec says. The second file does so for
  every input that carries no prefix.
\<close>

lemma trim_dropWhile: "trim (dropWhile is_space x) = trim x"
  by (simp add: trim_def)

lemma rvs_cleanInput_spec: "rvs_cleanInput s = spec_cleanInput s"
  by (simp add: rvs_cleanInput_def rvs_removePrefix_def spec_cleanInput_def trim_dropWhile)

lemma startsWith_args_trim:
  assumes "startsWith s ''args:''"
  shows "startsWith (trim s) ''args:''"
proof -
  from assms obtain s' where s: "s = ''args:'' @ s'"
    unfolding startsWith_def by (metis append_take_drop_id)
  have nsp: "\<not> is_space CHR ''a''" "\<not> is_space CHR '':''"
    by (simp_all add: is_space_def)
  have "dropWhile is_space (rev s' @ '':sgr'') = dropWhile is_space (rev s') @ '':sgr''"
    using dropWhile_keep [of is_space "CHR '':''" "rev s'" "''sgr''"] nsp(2) by simp
  then have "trim (''args:'' @ s') = ''args:'' @ rev (dropWhile is_space (rev s'))"
    using trim_Cons [OF nsp(1), of "''rgs:'' @ s'"] by simp
  then show ?thesis
    unfolding s startsWith_def by simp
qed

lemma p0_cleanInput_spec:
  assumes "unprefixed s"
  shows "p0_cleanInput s = spec_cleanInput s"
proof -
  have "\<not> startsWith s ''args:''"
    using assms startsWith_args_trim unfolding unprefixed_def by blast
  then show ?thesis
    using assms by (simp add: p0_cleanInput_def spec_cleanInput_def unprefixed_def Let_def)
qed

lemma not_both_forms: "\<not> (arrayForm t \<and> tupleForm t)"
  by (cases t) (auto simp: arrayForm_def tupleForm_def startsWith_def)

lemma spec_cleanInput_Nil: "spec_cleanInput [] = []"
  by (simp add: spec_cleanInput_def startsWith_def trim_def)

text \<open>
  Claim C3, as stated: parseArgsData returns the result of JSON-parsing every cleaned
  input in brackets, and throws an error reporting an invalid input format for every
  input that is neither in brackets nor in parentheses. The second file has a guard
  before any cleaning: the empty input, which is in neither form, is answered with
  \<^verbatim>\<open>No input data provided for parsing.\<close>, not with the invalid-format error.
\<close>

theorem p0_empty_input_counterexample:
  "\<not> arrayForm (spec_cleanInput '''') \<and> \<not> tupleForm (spec_cleanInput '''')
   \<and> p0_parseArgsData demo_runtime '''' = Inl NoInputData
   \<and> p0_parseArgsData demo_runtime ''''
       \<noteq> Inl (InvalidInputFormatReceived (substring (spec_cleanInput '''') 0 150))"
  by (simp add: p0_parseArgsData_def spec_cleanInput_Nil arrayForm_def tupleForm_def
      startsWith_def)

text \<open>
  Claim C3, amended: for every input that, after prefix removal and trimming, starts with
  \<^verbatim>\<open>[\<close> and ends with \<^verbatim>\<open>]\<close>, parseArgsData returns the result of JSON-parsing that
  text; for every input in parentheses it returns an array; and for every non-empty input
  in neither form it throws the invalid-format error. The second file answers the empty
  input with its no-input error. The statement for the second file is about the inputs
  that carry no prefix; what it does with a prefixed input is the matter of claim C4.
\<close>

theorem parseArgsData_two_formats:
  "(arrayForm (spec_cleanInput s) \<longrightarrow>
      rvs_parseArgsData rt s = JSON_parse rt (spec_cleanInput s))
   \<and> (tupleForm (spec_cleanInput s) \<longrightarrow> (\<exists>xs. rvs_parseArgsData rt s = Inr (JArr xs)))
   \<and> (\<not> arrayForm (spec_cleanInput s) \<and> \<not> tupleForm (spec_cleanInput s) \<longrightarrow>
      rvs_parseArgsData rt s = Inl InvalidInputFormat)
   \<and> (unprefixed s \<longrightarrow>
        (arrayForm (spec_cleanInput s) \<longrightarrow>
           (\<forall>v. p0_parseArgsData rt s = Inr v \<longleftrightarrow> JSON_parse rt (spec_cleanInput s) = Inr v))
      \<and> (tupleForm (spec_cleanInput s) \<longrightarrow> (\<exists>xs. p0_parseArgsData rt s = Inr (JArr xs)))
      \<and> (s \<noteq> [] \<and> \<not> arrayForm (spec_cleanInput s) \<and> \<not> tupleForm (spec_cleanInput s) \<longrightarrow>
           p0_parseArgsData rt s
             = Inl (InvalidInputFormatReceived (substring (spec_cleanInput s) 0 150))))
   \<and> p0_parseArgsData rt [] = Inl NoInputData"
proof -
  have nb: "\<not> (arrayForm (spec_cleanInput s) \<and> tupleForm (spec_cleanInput s))"
    by (rule not_both_forms)
  have ne: "s \<noteq> []" if "arrayForm (spec_cleanInput s) \<or> tupleForm (spec_cleanInput s)"
    using that spec_cleanInput_Nil
    by (auto simp: arrayForm_def tupleForm_def startsWith_def)
  have a: "arrayForm (spec_cleanInput s) \<longrightarrow>
      rvs_parseArgsData rt s = JSON_parse rt (spec_cleanInput s)"
    by (simp add: rvs_parseArgsData_def rvs_cleanInput_spec Let_def arrayForm_def)
  have b: "tupleForm (spec_cleanInput s) \<longrightarrow> (\<exists>xs. rvs_parseArgsData rt s = Inr (JArr xs))"
    using nb by (auto simp: rvs_parseArgsData_def rvs_cleanInput_spec Let_def arrayForm_def
        tupleForm_def)
  have c: "\<not> arrayForm (spec_cleanInput s) \<and> \<not> tupleForm (spec_cleanInput s) \<longrightarrow>
      rvs_parseArgsData rt s = Inl InvalidInputFormat"
    by (auto simp: rvs_parseArgsData_def rvs_cleanInput_spec Let_def arrayForm_def tupleForm_def)
  have d: "arrayForm (spec_cleanInput s) \<longrightarrow>
           (\<forall>v. p0_parseArgsData rt s = Inr v \<longleftrightarrow> JSON_parse rt (spec_cleanInput s) = Inr v)"
    if "unprefixed s"
    using nb ne
    by (auto simp: p0_parseArgsData_def p0_cleanInput_spec [OF that] Let_def arrayForm_def
        tupleForm_def split: sum.splits)
  have f: "tupleForm (spec_cleanInput s) \<longrightarrow> (\<exists>xs. p0_parseArgsData rt s = Inr (JArr xs))"
    if "unprefixed s"
    using nb ne
    by (auto simp: p0_parseArgsData_def p0_cleanInput_spec [OF that] Let_def arrayForm_def
        tupleForm_def split: sum.splits)
  have g: "s \<noteq> [] \<and> \<not> arrayForm (spec_cleanInput s) \<and> \<not> tupleForm (spec_cleanInput s) \<longrightarrow>
           p0_parseArgsData rt s
             = Inl (InvalidInputFormatReceived (substring (spec_cleanInput s) 0 150))"
    if "unprefixed s"
    by (auto simp: p0_parseArgsData_def p0_cleanInput_spec [OF that] Let_def arrayForm_def
        tupleForm_def)
  have h: "p0_parseArgsData rt [] = Inl NoInputData"
    by (simp add: p0_parseArgsData_def)
  show ?thesis using a b c d f g h by blast
qed

lemma demo_forms:
  "spec_cleanInput ''args: []'' = ''[]''" "spec_cleanInput '' [] '' = ''[]''"
  "spec_cleanInput demo_args = demo_args" "spec_cleanInput ''hello'' = ''hello''"
  "arrayForm ''[]''" "tupleForm demo_args"
  "\<not> arrayForm ''hello''" "\<not> tupleForm ''hello''"
  "unprefixed '' [] ''" "unprefixed demo_args" "unprefixed ''hello''"
  "JSON_parse demo_runtime ''[]'' = Inr (JArr [])"
  "substring ''hello'' 0 150 = ''hello''"
  by code_simp+

theorem parseArgsData_two_formats_witness:
  "arrayForm (spec_cleanInput ''args: []'')
   \<and> rvs_parseArgsData demo_runtime ''args: []'' = Inr (JArr [])
   \<and> unprefixed '' [] '' \<and> arrayForm (spec_cleanInput '' [] '')
   \<and> p0_parseArgsData demo_runtime '' [] '' = Inr (JArr [])
   \<and> tupleForm (spec_cleanInput demo_args)
   \<and> (\<exists>xs. rvs_parseArgsData demo_runtime demo_args = Inr (JArr xs))
   \<and> unprefixed demo_args
   \<and> (\<exists>xs. p0_parseArgsData demo_runtime demo_args = Inr (JArr xs))
   \<and> ''hello'' \<noteq> [] \<and> unprefixed ''hello''
   \<and> \<not> arrayForm (spec_cleanInput ''hello'') \<and> \<not> tupleForm (spec_cleanInput ''hello'')
   \<and> rvs_parseArgsData demo_runtime ''hello'' = Inl InvalidInputFormat
   \<and> p0_parseArgsData demo_runtime ''hello'' = Inl (InvalidInputFormatReceived ''hello'')"
  using parseArgsData_two_formats [of "''args: []''" demo_runtime]
    parseArgsData_two_formats [of "'' [] ''" demo_runtime]
    parseArgsData_two_formats [of demo_args demo_runtime]
    parseArgsData_two_formats [of "''hello''" demo_runtime]
  by (simp add: demo_forms)

section \<open>What extraction checks\<close>

text \<open>
  Claim C2: extractDataFromArgs throws whenever the parsed array has fewer than six
  elements, the first element is not a valid address string, the third cannot be made
  into an object, or one of the elements at positions 3, 4, 5 is missing. The first file
  checks the third element only: the three-element array of the pasted tuple
  \<^verbatim>\<open>(not-an-address, [], {})\<close> is extracted without error there, with the three keys
  undefined, while the second file rejects it.
\<close>

theorem rvs_extractDataFromArgs_accepts_three:
  "rvs_extractDataFromArgs demo_runtime (JArr [JStr ''not-an-address'', JArr [], JObj []])
     = Inr \<lparr>attester = JStr ''not-an-address'', merkleProof = JArr [], zkPassportData = JObj [],
            publicKeyG1 = JUndefined, publicKeyG2 = JUndefined, signature = JUndefined\<rparr>
   \<and> \<not> isAddress demo_runtime ''not-an-address''
   \<and> p0_extractDataFromArgs demo_runtime (JArr [JStr ''not-an-address'', JArr [], JObj []])
     = Inl TooFewArguments"
  by (simp add: rvs_extractDataFromArgs_def p0_extractDataFromArgs_def js_index_def
      parseIfString_def truthy_def typeof_object_def demo_runtime_def)

theorem rvs_extractDataFromArgs_accepts_three_witness:
  "\<exists>d. rvs_extractDataFromArgs demo_runtime (JArr [JStr ''not-an-address'', JArr [], JObj []]) = Inr d
       \<and> \<not> truthy (publicKeyG1 d) \<and> \<not> truthy (publicKeyG2 d) \<and> \<not> truthy (signature d)"
  using rvs_extractDataFromArgs_accepts_three by (simp add: truthy_def)


text \<open>
  Claim C10: extractDataFromArgs puts an empty array in place of a missing or falsy
  second argument, so the merkleProof field of its result is always an array. The first
  file makes the substitution but never tests the value it keeps: a second argument
  that is a non-empty string stays the merkle proof there, while the second file throws
  for it.
\<close>

theorem rvs_extractDataFromArgs_keeps_non_array:
  "rvs_extractDataFromArgs demo_runtime
       (JArr [JStr ''0xAB'', JStr ''proof'', JObj [], JStr ''g1'', JStr ''g2'', JStr ''sig''])
     = Inr \<lparr>attester = JStr ''0xAB'', merkleProof = JStr ''proof'', zkPassportData = JObj [],
            publicKeyG1 = JStr ''g1'', publicKeyG2 = JStr ''g2'', signature = JStr ''sig''\<rparr>
   \<and> \<not> isArray (JStr ''proof'')
   \<and> p0_extractDataFromArgs demo_runtime
       (JArr [JStr ''0xAB'', JStr ''proof'', JObj [], JStr ''g1'', JStr ''g2'', JStr ''sig''])
     = Inl (MerkleProofNotArray (JStr ''proof''))"
  by (simp add: rvs_extractDataFromArgs_def p0_extractDataFromArgs_def js_index_def
      parseIfString_def truthy_def typeof_object_def typeof_string_def isArray_def
      demo_runtime_def)

theorem rvs_extractDataFromArgs_keeps_non_array_witness:
  "\<exists>d. rvs_extractDataFromArgs demo_runtime
           (JArr [JStr ''0xAB'', JStr ''proof'', JObj [], JStr ''g1'', JStr ''g2'', JStr ''sig'']) = Inr d
       \<and> \<not> isArray (merkleProof d)"
  using rvs_extractDataFromArgs_keeps_non_array by (simp add: isArray_def)

end
